theory Spec2Isabelle
  imports Complex_Main "HOL-Library.Word"
begin

section \<open>JavaScript strings\<close>

text \<open>
  A JavaScript string is a sequence of 16-bit UTF-16 code units; \<open>length\<close>,
  \<open>substring\<close>, \<open>trim\<close> and a regular expression without the \<open>u\<close> flag all
  work on code units. ASCII literals of the source are written with \<open>asc\<close>; the
  Korean literals are given by their code units.
\<close>

type_synonym jsstring = "16 word list"

definition asc :: "string \<Rightarrow> jsstring" where
  "asc s = map (\<lambda>c. of_nat (of_char c)) s"

abbreviation CH_LT :: "16 word" where "CH_LT \<equiv> 0x3C"
abbreviation CH_GT :: "16 word" where "CH_GT \<equiv> 0x3E"
abbreviation CH_SP :: "16 word" where "CH_SP \<equiv> 0x20"

text \<open>
  The class \<open>\s\<close> of a regular expression, which is also what
  \<open>String.prototype.trim\<close> strips: WhiteSpace (TAB, VT, FF, SP, NBSP, ZWNBSP and the
  Unicode space separators) and LineTerminator (LF, CR, LS, PS).
\<close>

definition is_ws :: "16 word \<Rightarrow> bool" where
  "is_ws c \<longleftrightarrow>
     c = 0x09 \<or> c = 0x0A \<or> c = 0x0B \<or> c = 0x0C \<or> c = 0x0D \<or> c = 0x20 \<or>
     c = 0xA0 \<or> c = 0x1680 \<or> (0x2000 \<le> c \<and> c \<le> 0x200A) \<or>
     c = 0x2028 \<or> c = 0x2029 \<or> c = 0x202F \<or> c = 0x205F \<or> c = 0x3000 \<or>
     c = 0xFEFF"

text \<open>\<open>s.trim()\<close>\<close>

definition trim :: "jsstring \<Rightarrow> jsstring" where
  "trim s = rev (dropWhile is_ws (rev (dropWhile is_ws s)))"

text \<open>
  One attempt of the regular expression \<open>pre[^>]+>\<close> at the start of \<open>s\<close>, for a
  literal \<open>pre\<close>: the greedy \<open>[^>]+\<close> takes the longest run of code units other than
  \<open>>\<close> (line terminators included, the class is negated), which must not be empty
  and must be followed by \<open>>\<close>; giving code units back never helps, since the unit
  given back is not \<open>>\<close>. The result is what follows the match.
\<close>

definition match_tag :: "jsstring \<Rightarrow> jsstring \<Rightarrow> jsstring option" where
  "match_tag pre s =
     (if take (length pre) s = pre
      then (let body = drop (length pre) s;
                run = takeWhile (\<lambda>c. c \<noteq> CH_GT) body;
                rest = dropWhile (\<lambda>c. c \<noteq> CH_GT) body
            in if run \<noteq> [] \<and> rest \<noteq> [] then Some (tl rest) else None)
      else None)"

lemma match_tag_shorter [termination_simp]:
  "match_tag pre s = Some rest \<Longrightarrow> length rest < length s"
proof -
  assume m: "match_tag pre s = Some rest"
  let ?body = "drop (length pre) s"
  let ?d = "dropWhile (\<lambda>c. c \<noteq> CH_GT) ?body"
  from m have ne: "?d \<noteq> []" and r: "rest = tl ?d"
    by (auto simp: match_tag_def Let_def split: if_splits)
  from ne have "length (tl ?d) < length ?d" by (cases ?d) auto
  also have "length ?d \<le> length ?body" by (rule length_dropWhile_le)
  also have "length ?body \<le> length s" by simp
  finally show ?thesis using r by simp
qed

text \<open>\<open>s.replace(/pre[^>]+>/g, '')\<close>: every match, leftmost first, is removed.\<close>

function replace_tags :: "jsstring \<Rightarrow> jsstring \<Rightarrow> jsstring" where
  "replace_tags pre [] = []"
| "replace_tags pre (c # cs) =
     (case match_tag pre (c # cs) of
        Some rest \<Rightarrow> replace_tags pre rest
      | None \<Rightarrow> c # replace_tags pre cs)"
  by pat_completeness auto
termination
  by (relation "measure (\<lambda>(pre, s). length s)") (auto dest: match_tag_shorter)

text \<open>\<open>s.replace(/\s+/g, ' ')\<close>\<close>

function collapse_ws :: "jsstring \<Rightarrow> jsstring" where
  "collapse_ws [] = []"
| "collapse_ws (c # cs) =
     (if is_ws c then CH_SP # collapse_ws (dropWhile is_ws cs) else c # collapse_ws cs)"
  by pat_completeness auto
termination
  by (relation "measure length") (auto simp: le_imp_less_Suc length_dropWhile_le)

section \<open>JavaScript values and errors\<close>

text \<open>
  The values the program handles are what \<open>JSON.parse\<close>, the HTTP client and the XML
  parser hand to it, and \<open>undefined\<close> for a property that is not there. An object is
  the list of its own properties in enumeration order (keys distinct). A finite number
  is given by its value, a rational (\<open>-0\<close>, which the program cannot tell from
  \<open>0\<close>, is \<open>0\<close>); \<open>JInf True\<close> is \<open>Infinity\<close> and \<open>JInf False\<close> is
  \<open>-Infinity\<close>, which \<open>JSON.parse\<close> gives for a literal beyond the range of a double.
  \<open>NaN\<close> is neither parsed nor computed by the program.
\<close>

datatype jsval =
    JUndefined
  | JNull
  | JBool bool
  | JNum rat
  | JInf bool
  | JStr jsstring
  | JArr "jsval list"
  | JObj "(jsstring \<times> jsval) list"

text \<open>An exception with its \<open>message\<close>; the messages of the engine's own errors are V8's.\<close>

datatype js_error =
    TypeError jsstring
  | ReferenceError jsstring
  | SyntaxError jsstring
  | LibraryError jsstring

text \<open>ToBoolean\<close>

fun truthy :: "jsval \<Rightarrow> bool" where
  "truthy JUndefined = False"
| "truthy JNull = False"
| "truthy (JBool b) = b"
| "truthy (JNum n) = (n \<noteq> 0)"
| "truthy (JInf positive) = True"
| "truthy (JStr s) = (s \<noteq> [])"
| "truthy (JArr xs) = True"
| "truthy (JObj kvs) = True"

section \<open>Text Normalizer\<close>

text \<open>
  \<open>MCPAbstractSearchTool.cleanAbstract\<close>. A truthy argument that is not a string has
  no callable \<open>replace\<close>, so the first call raises a TypeError.
\<close>

definition cleanAbstract :: "jsval \<Rightarrow> js_error + jsstring" where
  "cleanAbstract abstract =
     (if \<not> truthy abstract \<or> abstract = JStr (asc ''N/A'') then Inr (asc ''N/A'')
      else case abstract of
        JStr s \<Rightarrow>
          (let cleanText = replace_tags [CH_LT] s;
               cleanText = replace_tags (asc ''<jats:'') cleanText;
               cleanText = replace_tags (asc ''</jats:'') cleanText;
               cleanText = trim (collapse_ws cleanText)
           in Inr (if length cleanText > 500
                   then take 500 cleanText @ asc ''...''
                   else cleanText))
      | _ \<Rightarrow> Inl (TypeError (asc ''abstract.replace is not a function'')))"

section \<open>Conversions and property access\<close>

text \<open>\<open>error.message\<close>\<close>

fun error_message :: "js_error \<Rightarrow> jsstring" where
  "error_message (TypeError m) = m"
| "error_message (ReferenceError m) = m"
| "error_message (SyntaxError m) = m"
| "error_message (LibraryError m) = m"

text \<open>\<open>a || b\<close>\<close>

definition or_else :: "jsval \<Rightarrow> jsval \<Rightarrow> jsval" where
  "or_else a b = (if truthy a then a else b)"

text \<open>
  Decimal notation of a natural number: the key of an array element, and what
  JavaScript prints for a small whole number.
\<close>

fun digits :: "nat \<Rightarrow> jsstring" where
  "digits n = (if n < 10 then [of_nat (48 + n)] else digits (n div 10) @ [of_nat (48 + n mod 10)])"

declare digits.simps [simp del]

text \<open>
  ToString. The conversion of a finite number (\<open>Number.prototype.toString\<close>: the
  shortest digits that give the double back, in exponent notation from \<open>1e21\<close>) is
  the parameter \<open>pr\<close>. An object is converted by OrdinaryToPrimitive: an own property
  \<open>toString\<close> of a parsed object is never callable and hides
  \<open>Object.prototype.toString\<close>, and \<open>valueOf\<close> (own and not callable, or inherited
  and returning the object) gives no primitive, so the conversion raises a TypeError;
  without it the result is \<open>[object Object]\<close>. An array is converted by \<open>join\<close>,
  which writes \<open>null\<close> and \<open>undefined\<close> as the empty string.
\<close>

function js_to_string :: "(rat \<Rightarrow> jsstring) \<Rightarrow> jsval \<Rightarrow> js_error + jsstring"
  and join_elems :: "(rat \<Rightarrow> jsstring) \<Rightarrow> jsval list \<Rightarrow> js_error + jsstring" where
  "js_to_string pr JUndefined = Inr (asc ''undefined'')"
| "js_to_string pr JNull = Inr (asc ''null'')"
| "js_to_string pr (JBool b) = Inr (if b then asc ''true'' else asc ''false'')"
| "js_to_string pr (JNum n) = Inr (pr n)"
| "js_to_string pr (JInf positive) =
     Inr (if positive then asc ''Infinity'' else asc ''-Infinity'')"
| "js_to_string pr (JStr s) = Inr s"
| "js_to_string pr (JArr xs) = join_elems pr xs"
| "js_to_string pr (JObj kvs) =
     (if asc ''toString'' \<in> fst ` set kvs
      then Inl (TypeError (asc ''Cannot convert object to primitive value''))
      else Inr (asc ''[object Object]''))"
| "join_elems pr [] = Inr []"
| "join_elems pr (x # xs) =
     (case (if x = JNull \<or> x = JUndefined then Inr [] else js_to_string pr x) of
        Inl e \<Rightarrow> Inl e
      | Inr s \<Rightarrow>
          if xs = [] then Inr s
          else (case join_elems pr xs of
                  Inl e \<Rightarrow> Inl e
                | Inr r \<Rightarrow> Inr (s @ asc '','' @ r)))"
  by pat_completeness auto
termination
  by (relation "measure (\<lambda>a. case a of
         Inl (pr, v) \<Rightarrow> size v
       | Inr (pr, xs) \<Rightarrow> size_list size xs)") auto

text \<open>
  A template literal: its literal chunks and its substitutions, converted from left to
  right; the first conversion that raises ends the evaluation.
\<close>

datatype part = Lit jsstring | Sub jsval

fun template :: "(rat \<Rightarrow> jsstring) \<Rightarrow> part list \<Rightarrow> js_error + jsstring" where
  "template pr [] = Inr []"
| "template pr (Lit s # ps) =
     (case template pr ps of Inl e \<Rightarrow> Inl e | Inr r \<Rightarrow> Inr (s @ r))"
| "template pr (Sub v # ps) =
     (case js_to_string pr v of
        Inl e \<Rightarrow> Inl e
      | Inr s \<Rightarrow> (case template pr ps of Inl e \<Rightarrow> Inl e | Inr r \<Rightarrow> Inr (s @ r)))"

text \<open>
  \<open>console.error\<close> with a template literal. The diagnostic stream is not part of the
  model; what remains of the call is the conversion of the substitutions, which can
  raise.
\<close>

definition console_error :: "(rat \<Rightarrow> jsstring) \<Rightarrow> jsval list \<Rightarrow> js_error + unit" where
  "console_error pr vs =
     (case template pr (map Sub vs) of Inl e \<Rightarrow> Inl e | Inr s \<Rightarrow> Inr ())"

text \<open>
  \<open>v[k]\<close> and \<open>v.k\<close>, for the keys the program reads: own properties of an object,
  the elements and \<open>length\<close> of an array, the code units and \<open>length\<close> of a string.
  None of the keys read is a member of \<open>Object.prototype\<close>, \<open>Array.prototype\<close> or
  \<open>String.prototype\<close> other than \<open>length\<close>. Reading a property of \<open>null\<close> or
  \<open>undefined\<close> raises a TypeError.
\<close>

definition index_of :: "jsstring \<Rightarrow> nat \<Rightarrow> nat option" where
  "index_of k n = (case filter (\<lambda>i. digits i = k) [0..<n] of [] \<Rightarrow> None | i # _ \<Rightarrow> Some i)"

fun get_prop :: "jsval \<Rightarrow> jsstring \<Rightarrow> js_error + jsval" where
  "get_prop JUndefined k =
     Inl (TypeError (asc ''Cannot read properties of undefined (reading '' @ [0x27] @ k @ [0x27] @ asc '')''))"
| "get_prop JNull k =
     Inl (TypeError (asc ''Cannot read properties of null (reading '' @ [0x27] @ k @ [0x27] @ asc '')''))"
| "get_prop (JObj kvs) k = Inr (case map_of kvs k of None \<Rightarrow> JUndefined | Some v \<Rightarrow> v)"
| "get_prop (JArr xs) k =
     Inr (if k = asc ''length'' then JNum (of_nat (length xs))
          else (case index_of k (length xs) of None \<Rightarrow> JUndefined | Some i \<Rightarrow> xs ! i))"
| "get_prop (JStr s) k =
     Inr (if k = asc ''length'' then JNum (of_nat (length s))
          else (case index_of k (length s) of None \<Rightarrow> JUndefined | Some i \<Rightarrow> JStr [s ! i]))"
| "get_prop (JBool b) k = Inr JUndefined"
| "get_prop (JNum n) k = Inr JUndefined"
| "get_prop (JInf positive) k = Inr JUndefined"

text \<open>
  \<open>x > 0\<close>. An operand that is not a number is converted to one; the conversion of a
  string (StringToNumber) is a parameter, \<open>str_gt0 s\<close> telling whether the number read
  from \<open>s\<close> is greater than 0. An object or array is first converted to a string as
  above.
\<close>

definition js_gt0 ::
  "(jsstring \<Rightarrow> bool) \<Rightarrow> (rat \<Rightarrow> jsstring) \<Rightarrow> jsval \<Rightarrow> js_error + bool" where
  "js_gt0 str_gt0 pr x =
     (case x of
        JUndefined \<Rightarrow> Inr False
      | JNull \<Rightarrow> Inr False
      | JBool b \<Rightarrow> Inr b
      | JNum n \<Rightarrow> Inr (0 < n)
      | JInf positive \<Rightarrow> Inr positive
      | _ \<Rightarrow> (case js_to_string pr x of Inl e \<Rightarrow> Inl e | Inr s \<Rightarrow> Inr (str_gt0 s)))"

text \<open>\<open>s.replace(pat, '')\<close> with a string pattern: the first occurrence is removed.\<close>

fun remove_first :: "jsstring \<Rightarrow> jsstring \<Rightarrow> jsstring" where
  "remove_first pat [] = []"
| "remove_first pat (c # cs) =
     (if take (length pat) (c # cs) = pat then drop (length pat) (c # cs)
      else c # remove_first pat cs)"

text \<open>
  \<open>for (const x of v)\<close>: the elements of an array, the code points of a string (a
  surrogate pair is one element); any other value is not iterable.
\<close>

fun code_points :: "jsstring \<Rightarrow> jsstring list" where
  "code_points [] = []"
| "code_points [c] = [[c]]"
| "code_points (c # d # cs) =
     (if 0xD800 \<le> c \<and> c \<le> 0xDBFF \<and> 0xDC00 \<le> d \<and> d \<le> 0xDFFF
      then [c, d] # code_points cs
      else [c] # code_points (d # cs))"

definition iterate :: "jsval \<Rightarrow> js_error + jsval list" where
  "iterate v =
     (case v of
        JArr xs \<Rightarrow> Inr xs
      | JStr s \<Rightarrow> Inr (map JStr (code_points s))
      | _ \<Rightarrow> Inl (TypeError (asc ''entries is not iterable'')))"

section \<open>Searching the parsed XML\<close>

text \<open>
  \<open>MCPAbstractSearchTool.findElement\<close>. \<open>for (const key in obj)\<close> runs through the
  own properties in enumeration order; the keys of an array are its indices in decimal
  notation. \<open>typeof null\<close> is \<open>object\<close> too, and the call on \<open>null\<close> returns \<open>null\<close>.
\<close>

fun is_object_type :: "jsval \<Rightarrow> bool" where
  "is_object_type JNull = True"
| "is_object_type (JArr xs) = True"
| "is_object_type (JObj kvs) = True"
| "is_object_type _ = False"

function findElement :: "jsval \<Rightarrow> jsstring \<Rightarrow> jsval"
  and find_in_props :: "(jsstring \<times> jsval) list \<Rightarrow> jsstring \<Rightarrow> jsval"
  and find_in_items :: "nat \<Rightarrow> jsval list \<Rightarrow> jsstring \<Rightarrow> jsval" where
  "findElement (JObj kvs) tagName = find_in_props kvs tagName"
| "findElement (JArr xs) tagName = find_in_items 0 xs tagName"
| "findElement JUndefined tagName = JNull"
| "findElement JNull tagName = JNull"
| "findElement (JBool b) tagName = JNull"
| "findElement (JNum n) tagName = JNull"
| "findElement (JInf positive) tagName = JNull"
| "findElement (JStr s) tagName = JNull"
| "find_in_props [] tagName = JNull"
| "find_in_props ((key, v) # kvs) tagName =
     (if key = tagName then v
      else if is_object_type v
        then (let result = findElement v tagName
              in if truthy result then result else find_in_props kvs tagName)
        else find_in_props kvs tagName)"
| "find_in_items i [] tagName = JNull"
| "find_in_items i (v # vs) tagName =
     (if digits i = tagName then v
      else if is_object_type v
        then (let result = findElement v tagName
              in if truthy result then result else find_in_items (Suc i) vs tagName)
        else find_in_items (Suc i) vs tagName)"
  by pat_completeness auto
termination
  by (relation "measure (\<lambda>a. case a of
         Inl (v, t) \<Rightarrow> size v
       | Inr (Inl (kvs, t)) \<Rightarrow> size_list (size_prod (\<lambda>k. 0) size) kvs
       | Inr (Inr (i, vs, t)) \<Rightarrow> size_list size vs)") auto

section \<open>Effects\<close>

text \<open>
  What the tools do to the outside is: HTTP GET requests and pauses. A computation
  takes the trace of the events so far and returns its result, or the exception it
  raises, with the extended trace. Every request is sent through an HTTPS agent that
  does not verify certificates, which the record of a request leaves out.
\<close>

record http_request =
  url :: jsstring
  params :: "(jsstring \<times> jsval) list"
  headers :: "(jsstring \<times> jsstring) list"
  timeout :: "nat option"

datatype event = HttpGet http_request | Sleep nat

type_synonym trace = "event list"

type_synonym 'a io = "trace \<Rightarrow> (js_error + 'a) \<times> trace"

definition io_return :: "'a \<Rightarrow> 'a io" where
  "io_return x = (\<lambda>t. (Inr x, t))"

definition io_lift :: "js_error + 'a \<Rightarrow> 'a io" where
  "io_lift r = (\<lambda>t. (r, t))"

definition io_bind :: "'a io \<Rightarrow> ('a \<Rightarrow> 'b io) \<Rightarrow> 'b io" where
  "io_bind m f = (\<lambda>t. case m t of (Inl e, t') \<Rightarrow> (Inl e, t') | (Inr x, t') \<Rightarrow> f x t')"

text \<open>\<open>try { m } catch (error) { h error }\<close>\<close>

definition io_catch :: "'a io \<Rightarrow> (js_error \<Rightarrow> 'a io) \<Rightarrow> 'a io" where
  "io_catch m h = (\<lambda>t. case m t of (Inl e, t') \<Rightarrow> h e t' | (Inr x, t') \<Rightarrow> (Inr x, t'))"

text \<open>
  What the program does not contain: the network, the two parsers it calls, the
  credential read at start, and the two conversions of numbers that the engine brings
  (\<open>str_gt0\<close> and \<open>num_str\<close>, see \<open>js_gt0\<close> and \<open>js_to_string\<close>). An HTTP request
  either fails (the promise of \<open>axios.get\<close> is rejected with an error of the given
  message) or is answered with a status and a body; the answer may depend on everything
  that happened before. Each request is assumed to end in one of the two ways.
\<close>

datatype http_outcome = Failed jsstring | Response int jsval

record env =
  scopusApiKey :: jsstring
  net :: "trace \<Rightarrow> http_request \<Rightarrow> http_outcome"
  xml_parse :: "jsval \<Rightarrow> js_error + jsval"
  json_parse :: "jsstring \<Rightarrow> js_error + jsval"
  str_gt0 :: "jsstring \<Rightarrow> bool"
  num_str :: "rat \<Rightarrow> jsstring"

text \<open>\<open>await axios.get(url, {params, headers, timeout})\<close>, giving status and data.\<close>

definition axios_get :: "env \<Rightarrow> http_request \<Rightarrow> (int \<times> jsval) io" where
  "axios_get e r =
     (\<lambda>t. (case net e t r of
              Failed m \<Rightarrow> Inl (LibraryError m)
            | Response status data \<Rightarrow> Inr (status, data),
            t @ [HttpGet r]))"

text \<open>\<open>await new Promise(resolve => setTimeout(resolve, ms))\<close>\<close>

definition sleep :: "nat \<Rightarrow> unit io" where
  "sleep ms = (\<lambda>t. (Inr (), t @ [Sleep ms]))"

section \<open>Primary Search Adapter\<close>

definition scopusUrl :: jsstring where
  "scopusUrl = asc ''https://api.elsevier.com/content/search/scopus''"

definition crossref_url :: jsstring where
  "crossref_url = asc ''https://api.crossref.org/works''"

definition pubmed_url :: jsstring where
  "pubmed_url = asc ''https://eutils.ncbi.nlm.nih.gov/entrez/eutils''"

text \<open>
  \<open>MCPAbstractSearchTool.searchScopus(query, count = 10)\<close>: the default applies to an
  argument that is \<open>undefined\<close> only.
\<close>

definition scopus_request :: "env \<Rightarrow> jsval \<Rightarrow> jsval \<Rightarrow> http_request" where
  "scopus_request e query count =
     \<lparr>url = scopusUrl,
      params = [(asc ''query'', query), (asc ''count'', count), (asc ''start'', JNum 0),
                (asc ''apiKey'', JStr (scopusApiKey e))],
      headers = [(asc ''Accept'', asc ''application/json''),
                 (asc ''X-ELS-APIKey'', scopusApiKey e)],
      timeout = None\<rparr>"

definition searchScopus :: "env \<Rightarrow> jsval \<Rightarrow> jsval \<Rightarrow> jsval io" where
  "searchScopus e query count =
     (let count = (if count = JUndefined then JNum 10 else count)
      in io_catch
           (io_bind (axios_get e (scopus_request e query count)) (\<lambda>(status, data).
              io_return (if status = 200 then data else JObj [])))
           (\<lambda>error. io_return (JObj [])))"

section \<open>Abstract Provider Adapters\<close>

record abstract_result =
  source :: jsstring
  abstract :: jsstring
  success :: bool
  title :: jsval
  quality_score :: "int option"

text \<open>
  \<open>{ source: src, abstract: 'N/A', success: false }\<close>: no \<open>title\<close> (reading it gives
  \<open>undefined\<close>) and no \<open>quality_score\<close>.
\<close>

definition no_abstract :: "jsstring \<Rightarrow> abstract_result" where
  "no_abstract src =
     \<lparr>source = src, abstract = asc ''N/A'', success = False, title = JUndefined,
      quality_score = None\<rparr>"

text \<open>\<open>MCPAbstractSearchTool.getAbstractFromCrossref\<close>\<close>

definition getAbstractFromCrossref :: "env \<Rightarrow> jsval \<Rightarrow> abstract_result io" where
  "getAbstractFromCrossref e doi =
     (if \<not> truthy doi \<or> doi = JStr (asc ''N/A'') then io_return (no_abstract (asc ''crossref''))
      else
        io_bind (io_lift (template (num_str e) [Lit crossref_url, Lit (asc ''/''), Sub doi])) (\<lambda>u.
        io_catch
          (io_bind (axios_get e \<lparr>url = u, params = [], headers = [], timeout = Some 10000\<rparr>)
             (\<lambda>(status, data).
           if status = 200 then
             io_bind (io_lift (get_prop data (asc ''message''))) (\<lambda>msg.
             if truthy msg then
               io_bind (io_lift (get_prop msg (asc ''abstract''))) (\<lambda>a.
               let abstract = or_else a (JStr (asc ''N/A'')) in
               if truthy abstract \<and> abstract \<noteq> JStr (asc ''N/A'') then
                 io_bind (io_lift (cleanAbstract abstract)) (\<lambda>clean.
                 io_bind (io_lift (get_prop msg (asc ''title''))) (\<lambda>ts.
                 io_bind (if truthy ts then io_lift (get_prop ts (asc ''0''))
                          else io_return (JStr (asc ''N/A''))) (\<lambda>title0.
                 io_return \<lparr>source = asc ''crossref'', abstract = clean, success = True,
                            title = title0, quality_score = Some 9\<rparr>)))
               else io_return (no_abstract (asc ''crossref'')))
             else io_return (no_abstract (asc ''crossref'')))
           else io_return (no_abstract (asc ''crossref''))))
          (\<lambda>error. io_return (no_abstract (asc ''crossref'')))))"

text \<open>
  \<open>MCPAbstractSearchTool.getAbstractFromPubMed\<close>. \<open>a && a[k]\<close> is \<open>a\<close> when \<open>a\<close> is
  falsy and \<open>a[k]\<close> otherwise.
\<close>

definition and_prop :: "jsval \<Rightarrow> jsstring \<Rightarrow> jsval io" where
  "and_prop a k = (if truthy a then io_lift (get_prop a k) else io_return a)"

text \<open>The block entered when the second request is answered with status 200.\<close>

definition pubmed_record :: "env \<Rightarrow> jsval \<Rightarrow> abstract_result io" where
  "pubmed_record e fetchData =
     io_bind (io_lift (xml_parse e fetchData)) (\<lambda>result.
     let abstractElement = findElement result (asc ''AbstractText'') in
     io_bind (and_prop abstractElement (asc ''0'')) (\<lambda>a0.
     if truthy a0 then
       (let titleElement = findElement result (asc ''ArticleTitle'') in
        io_bind (and_prop titleElement (asc ''0'')) (\<lambda>t0.
        let titleText = (if truthy t0 then t0 else JStr (asc ''N/A'')) in
        io_bind (io_lift (cleanAbstract a0)) (\<lambda>clean.
        io_return \<lparr>source = asc ''pubmed'', abstract = clean, success = True,
                   title = titleText, quality_score = Some 8\<rparr>)))
     else io_return (no_abstract (asc ''pubmed''))))"

text \<open>The block entered when the first request is answered with status 200.\<close>

definition pubmed_lookup :: "env \<Rightarrow> jsval \<Rightarrow> abstract_result io" where
  "pubmed_lookup e data =
     io_bind (io_lift (get_prop data (asc ''esearchresult''))) (\<lambda>esr.
     io_bind (and_prop esr (asc ''idlist'')) (\<lambda>pmidList.
     if truthy pmidList then
       io_bind (io_lift (get_prop pmidList (asc ''length''))) (\<lambda>len.
       io_bind (io_lift (js_gt0 (str_gt0 e) (num_str e) len)) (\<lambda>positive.
       if positive then
         io_bind (io_lift (get_prop pmidList (asc ''0''))) (\<lambda>pmid.
         io_bind (axios_get e
             \<lparr>url = pubmed_url @ asc ''/efetch.fcgi'',
              params = [(asc ''db'', JStr (asc ''pubmed'')), (asc ''id'', pmid),
                        (asc ''retmode'', JStr (asc ''xml''))],
              headers = [], timeout = Some 10000\<rparr>) (\<lambda>(fetchStatus, fetchData).
         if fetchStatus = 200 then pubmed_record e fetchData
         else io_return (no_abstract (asc ''pubmed''))))
       else io_return (no_abstract (asc ''pubmed''))))
     else io_return (no_abstract (asc ''pubmed''))))"

definition getAbstractFromPubMed :: "env \<Rightarrow> jsval \<Rightarrow> abstract_result io" where
  "getAbstractFromPubMed e doi =
     (if \<not> truthy doi \<or> doi = JStr (asc ''N/A'') then io_return (no_abstract (asc ''pubmed''))
      else
        io_bind (io_lift (template (num_str e) [Sub doi, Lit (asc ''[doi]'')])) (\<lambda>term.
        io_catch
          (io_bind (axios_get e
               \<lparr>url = pubmed_url @ asc ''/esearch.fcgi'',
                params = [(asc ''db'', JStr (asc ''pubmed'')), (asc ''term'', JStr term),
                          (asc ''retmode'', JStr (asc ''json''))],
                headers = [], timeout = Some 10000\<rparr>) (\<lambda>(status, data).
           if status = 200 then pubmed_lookup e data
           else io_return (no_abstract (asc ''pubmed''))))
          (\<lambda>error. io_return (no_abstract (asc ''pubmed'')))))"

section \<open>Best-Abstract Selector\<close>

text \<open>
  The loop of \<open>getBestAbstract\<close> over its \<open>sources\<close>: call the adapter, keep a
  successful result, pause 300 ms. An exception of an adapter leaves the loop.
\<close>

fun query_sources ::
  "(jsval \<Rightarrow> abstract_result io) list \<Rightarrow> jsval \<Rightarrow> abstract_result list \<Rightarrow> abstract_result list io"
  where
  "query_sources [] doi results = io_return results"
| "query_sources (sourceFunc # rest) doi results =
     io_bind (sourceFunc doi) (\<lambda>result.
     io_bind (sleep 300) (\<lambda>u.
     query_sources rest doi (if success result then results @ [result] else results)))"

text \<open>\<open>r.quality_score || 0\<close>\<close>

definition score :: "abstract_result \<Rightarrow> int" where
  "score r = (case quality_score r of None \<Rightarrow> 0 | Some n \<Rightarrow> n)"

text \<open>The callback of \<open>reduce\<close>, which is called without an initial value.\<close>

definition better :: "abstract_result \<Rightarrow> abstract_result \<Rightarrow> abstract_result" where
  "better best current = (if score current > score best then current else best)"

definition getBestAbstract :: "env \<Rightarrow> jsval \<Rightarrow> abstract_result io" where
  "getBestAbstract e doi =
     io_bind (query_sources [getAbstractFromCrossref e, getAbstractFromPubMed e] doi [])
       (\<lambda>results.
          case results of
            [] \<Rightarrow> io_return (no_abstract (asc ''none''))
          | r # rs \<Rightarrow> io_return (foldl better r rs))"

section \<open>Literals of the tool texts\<close>

text \<open>Korean literal; in English: description of search_papers: searches papers by keyword and fetches abstracts\<close>

definition ko_desc_search :: jsstring where
  "ko_desc_search =
     [0xD0A4, 0xC6CC, 0xB4DC, 0xB85C, 0x20, 0xB17C, 0xBB38, 0xC744, 0x20, 0xAC80, 0xC0C9,
      0xD558, 0xACE0, 0x20, 0xCD08, 0xB85D, 0xC744, 0x20, 0xAC00, 0xC838, 0xC635, 0xB2C8,
      0xB2E4, 0x2E]"

text \<open>Korean literal; in English: description of query: the keyword to search\<close>

definition ko_desc_query :: jsstring where
  "ko_desc_query =
     [0xAC80, 0xC0C9, 0xD560, 0x20, 0xD0A4, 0xC6CC, 0xB4DC]"

text \<open>Korean literal; in English: description of count: number of papers (default: 10, maximum: 50)\<close>

definition ko_desc_count :: jsstring where
  "ko_desc_count =
     [0xAC80, 0xC0C9, 0xD560, 0x20, 0xB17C, 0xBB38, 0x20, 0xC218, 0x20, 0x28, 0xAE30,
      0xBCF8, 0xAC12, 0x3A, 0x20, 0x31, 0x30, 0x2C, 0x20, 0xCD5C, 0xB300, 0x3A, 0x20, 0x35,
      0x30, 0x29]"

text \<open>Korean literal; in English: description of get_abstract_by_doi: fetches the abstract of a paper by DOI\<close>

definition ko_desc_get :: jsstring where
  "ko_desc_get =
     [0x44, 0x4F, 0x49, 0xB85C, 0x20, 0xD2B9, 0xC815, 0x20, 0xB17C, 0xBB38, 0xC758, 0x20,
      0xCD08, 0xB85D, 0xC744, 0x20, 0xAC00, 0xC838, 0xC635, 0xB2C8, 0xB2E4, 0x2E]"

text \<open>Korean literal; in English: description of doi: the DOI of the paper\<close>

definition ko_desc_doi :: jsstring where
  "ko_desc_doi =
     [0xB17C, 0xBB38, 0xC758, 0x20, 0x44, 0x4F, 0x49]"

text \<open>Korean literal; in English: unknown tool:\<close>

definition ko_unknown_tool :: jsstring where
  "ko_unknown_tool =
     [0xC54C, 0x20, 0xC218, 0x20, 0xC5C6, 0xB294, 0x20, 0xB3C4, 0xAD6C, 0x3A, 0x20]"

text \<open>Korean literal; in English: an error occurred while running the tool:\<close>

definition ko_tool_error :: jsstring where
  "ko_tool_error =
     [0xB3C4, 0xAD6C, 0x20, 0xC2E4, 0xD589, 0x20, 0xC911, 0x20, 0xC624, 0xB958, 0xAC00,
      0x20, 0xBC1C, 0xC0DD, 0xD588, 0xC2B5, 0xB2C8, 0xB2E4, 0x3A, 0x20]"

text \<open>Korean literal; in English: please enter a keyword to search\<close>

definition ko_enter_keyword :: jsstring where
  "ko_enter_keyword =
     [0xAC80, 0xC0C9, 0xD560, 0x20, 0xD0A4, 0xC6CC, 0xB4DC, 0xB97C, 0x20, 0xC785, 0xB825,
      0xD574, 0xC8FC, 0xC138, 0xC694, 0x2E]"

text \<open>Korean literal; in English: closing quote, then: no papers were found for the keyword\<close>

definition ko_no_papers :: jsstring where
  "ko_no_papers =
     [0x27, 0x20, 0xD0A4, 0xC6CC, 0xB4DC, 0xB85C, 0x20, 0xAC80, 0xC0C9, 0xB41C, 0x20,
      0xB17C, 0xBB38, 0xC774, 0x20, 0xC5C6, 0xC2B5, 0xB2C8, 0xB2E4, 0x2E]"

text \<open>Korean literal; in English: closing quote, then: for the keyword\<close>

definition ko_found_for :: jsstring where
  "ko_found_for =
     [0x27, 0x20, 0xD0A4, 0xC6CC, 0xB4DC, 0xB85C, 0x20]"

text \<open>Korean literal; in English: papers were found: and two line feeds\<close>

definition ko_found_papers :: jsstring where
  "ko_found_papers =
     [0xAC1C, 0x20, 0xB17C, 0xBB38, 0xC744, 0x20, 0xCC3E, 0xC558, 0xC2B5, 0xB2C8, 0xB2E4,
      0x3A, 0xA, 0xA]"

text \<open>Korean literal; in English: authors:\<close>

definition ko_authors :: jsstring where
  "ko_authors =
     [0xC800, 0xC790, 0x3A, 0x20]"

text \<open>Korean literal; in English: journal:\<close>

definition ko_journal :: jsstring where
  "ko_journal =
     [0xC800, 0xB110, 0x3A, 0x20]"

text \<open>Korean literal; in English: publication date:\<close>

definition ko_date :: jsstring where
  "ko_date =
     [0xBC1C, 0xD589, 0xC77C, 0x3A, 0x20]"

text \<open>Korean literal; in English: citations:\<close>

definition ko_cited :: jsstring where
  "ko_cited =
     [0xC778, 0xC6A9, 0x3A, 0x20]"

text \<open>Korean literal; in English: abstract, opening parenthesis\<close>

definition ko_abstract_open :: jsstring where
  "ko_abstract_open =
     [0xCD08, 0xB85D, 0x20, 0x28]"

text \<open>Korean literal; in English: abstract: none, and a line feed\<close>

definition ko_abstract_none :: jsstring where
  "ko_abstract_none =
     [0xCD08, 0xB85D, 0x3A, 0x20, 0xC5C6, 0xC74C, 0xA]"

text \<open>Korean literal; in English: please enter a DOI\<close>

definition ko_enter_doi :: jsstring where
  "ko_enter_doi =
     [0x44, 0x4F, 0x49, 0xB97C, 0x20, 0xC785, 0xB825, 0xD574, 0xC8FC, 0xC138, 0xC694, 0x2E]"

text \<open>Korean literal; in English: title:\<close>

definition ko_title :: jsstring where
  "ko_title =
     [0xC81C, 0xBAA9, 0x3A, 0x20]"

text \<open>Korean literal; in English: abstract source:\<close>

definition ko_abstract_source :: jsstring where
  "ko_abstract_source =
     [0xCD08, 0xB85D, 0x20, 0xC18C, 0xC2A4, 0x3A, 0x20]"

text \<open>Korean literal; in English: abstract:\<close>

definition ko_abstract :: jsstring where
  "ko_abstract =
     [0xCD08, 0xB85D, 0x3A, 0x20]"

text \<open>Korean literal; in English: closing quote, then: no abstract could be found for it\<close>

definition ko_not_found :: jsstring where
  "ko_not_found =
     [0x27, 0xC5D0, 0x20, 0xB300, 0xD55C, 0x20, 0xCD08, 0xB85D, 0xC744, 0x20, 0xCC3E,
      0xC744, 0x20, 0xC218, 0x20, 0xC5C6, 0xC2B5, 0xB2C8, 0xB2E4, 0x2E]"

section \<open>Paper Assembler\<close>

text \<open>The object built for each entry of the search result.\<close>

record paper =
  paper_title :: jsval
  paper_authors :: jsval
  paper_publication_name :: jsval
  paper_publication_date :: jsval
  paper_doi :: jsval
  paper_cited_by_count :: jsval
  paper_scopus_id :: jsstring
  paper_scopus_url :: jsstring
  paper_abstract :: jsstring
  paper_abstract_source :: jsstring

text \<open>
  \<open>(entry['dc:identifier'] || '').replace('SCOPUS_ID:', '')\<close>: only a string has a
  callable \<open>replace\<close>.
\<close>

definition scopus_id_of :: "jsval \<Rightarrow> js_error + jsstring" where
  "scopus_id_of ident =
     (case or_else ident (JStr []) of
        JStr s \<Rightarrow> Inr (remove_first (asc ''SCOPUS_ID:'') s)
      | _ \<Rightarrow> Inl (TypeError (asc ''(entry.dc:identifier || \"\").replace is not a function'')))"

text \<open>
  The body of the loop of \<open>searchPapersWithAbstracts\<close>. The abstract is looked up
  before the object is built; in the object literal only \<open>scopus_id\<close> and
  \<open>scopus_url\<close> can raise, in this order.
\<close>

definition assemble_paper :: "env \<Rightarrow> jsval \<Rightarrow> paper io" where
  "assemble_paper e entry =
     io_bind (io_lift (get_prop entry (asc ''prism:doi''))) (\<lambda>d.
     let doi = or_else d (JStr (asc ''N/A'')) in
     io_bind (if doi \<noteq> JStr (asc ''N/A'')
              then io_bind (getBestAbstract e doi) (\<lambda>abstractResult.
                     io_return
                       (if success abstractResult then abstract abstractResult else asc ''N/A'',
                        if source abstractResult = [] then asc ''N/A''
                        else source abstractResult))
              else io_return (asc ''N/A'', asc ''N/A'')) (\<lambda>(abstract_text, abstract_src).
     io_bind (io_lift (get_prop entry (asc ''dc:title''))) (\<lambda>t.
     io_bind (io_lift (get_prop entry (asc ''dc:creator''))) (\<lambda>a.
     io_bind (io_lift (get_prop entry (asc ''prism:publicationName''))) (\<lambda>pn.
     io_bind (io_lift (get_prop entry (asc ''prism:coverDate''))) (\<lambda>pd.
     io_bind (io_lift (get_prop entry (asc ''citedby-count''))) (\<lambda>cc.
     io_bind (io_lift (get_prop entry (asc ''dc:identifier''))) (\<lambda>ident.
     io_bind (io_lift (scopus_id_of ident)) (\<lambda>sid.
     io_bind (io_lift (get_prop entry (asc ''eid''))) (\<lambda>eid.
     io_bind (io_lift (template (num_str e)
                [Lit (asc ''https://www.scopus.com/inward/record.uri?eid=''),
                 Sub (or_else eid (JStr []))])) (\<lambda>surl.
     io_return
       \<lparr>paper_title = or_else t (JStr (asc ''N/A'')),
        paper_authors = or_else a (JStr (asc ''N/A'')),
        paper_publication_name = or_else pn (JStr (asc ''N/A'')),
        paper_publication_date = or_else pd (JStr (asc ''N/A'')),
        paper_doi = doi,
        paper_cited_by_count = or_else cc (JNum 0),
        paper_scopus_id = sid,
        paper_scopus_url = surl,
        paper_abstract = abstract_text,
        paper_abstract_source = abstract_src\<rparr>)))))))))))"

fun assemble :: "env \<Rightarrow> jsval list \<Rightarrow> paper list \<Rightarrow> paper list io" where
  "assemble e [] papers = io_return papers"
| "assemble e (entry # rest) papers =
     io_bind (assemble_paper e entry) (\<lambda>p. assemble e rest (papers @ [p]))"

text \<open>
  \<open>MCPAbstractSearchTool.searchPapersWithAbstracts(query, count = 10)\<close>. The total
  number of results is read and not used.
\<close>

definition searchPapersWithAbstracts :: "env \<Rightarrow> jsval \<Rightarrow> jsval \<Rightarrow> paper list io" where
  "searchPapersWithAbstracts e query count =
     (let count = (if count = JUndefined then JNum 10 else count)
      in io_bind (searchScopus e query count) (\<lambda>results.
         io_bind (and_prop results (asc ''search-results'')) (\<lambda>sr.
         if truthy sr then
           io_bind (io_lift (get_prop sr (asc ''entry''))) (\<lambda>en.
           let entries = or_else en (JArr []) in
           io_bind (io_lift (iterate entries)) (\<lambda>es. assemble e es []))
         else io_return [])))"

section \<open>Tools\<close>

text \<open>\<open>[{ type: "text", text: s }]\<close>\<close>

definition text_content :: "jsstring \<Rightarrow> jsval" where
  "text_content s = JArr [JObj [(asc ''type'', JStr (asc ''text'')), (asc ''text'', JStr s)]]"

text \<open>What the loop of \<open>searchPapersTool\<close> appends for the paper of index \<open>i\<close>.\<close>

definition paper_text :: "(rat \<Rightarrow> jsstring) \<Rightarrow> nat \<Rightarrow> paper \<Rightarrow> js_error + jsstring" where
  "paper_text pr i p =
     template pr
       ([Lit (asc ''[''), Sub (JNum (of_nat i + 1)), Lit (asc ''] ''), Sub (paper_title p), Lit [0xA],
         Lit ko_authors, Sub (paper_authors p), Lit [0xA],
         Lit ko_journal, Sub (paper_publication_name p), Lit [0xA],
         Lit ko_date, Sub (paper_publication_date p), Lit [0xA],
         Lit ko_cited, Sub (paper_cited_by_count p), Lit [0xA],
         Lit (asc ''DOI: ''), Sub (paper_doi p), Lit [0xA]] @
        (if paper_abstract p \<noteq> asc ''N/A''
         then [Lit ko_abstract_open, Lit (paper_abstract_source p), Lit (asc ''): ''),
               Lit (paper_abstract p), Lit [0xA]]
         else [Lit ko_abstract_none]) @
        [Lit (asc ''Scopus URL: ''), Lit (paper_scopus_url p), Lit [0xA],
         Lit (replicate 50 0x2D), Lit [0xA]])"

fun format_papers ::
  "(rat \<Rightarrow> jsstring) \<Rightarrow> nat \<Rightarrow> paper list \<Rightarrow> jsstring \<Rightarrow> js_error + jsstring" where
  "format_papers pr i [] resultText = Inr resultText"
| "format_papers pr i (p # rest) resultText =
     (case paper_text pr i p of
        Inl e \<Rightarrow> Inl e
      | Inr s \<Rightarrow> format_papers pr (Suc i) rest (resultText @ s))"

text \<open>\<open>MCPServer.searchPapersTool\<close>\<close>

definition searchPapersTool :: "env \<Rightarrow> jsval \<Rightarrow> jsval io" where
  "searchPapersTool e arguments =
     io_bind (io_lift (get_prop arguments (asc ''query''))) (\<lambda>q.
     let query = or_else q (JStr []) in
     io_bind (io_lift (get_prop arguments (asc ''count''))) (\<lambda>c.
     let count = or_else c (JNum 10) in
     if \<not> truthy query then io_return (text_content ko_enter_keyword)
     else
       io_bind (io_lift (console_error (num_str e) [query, count])) (\<lambda>u.
       io_bind (searchPapersWithAbstracts e query count) (\<lambda>papers.
       if length papers = 0 then
         io_bind (io_lift (template (num_str e) [Lit [0x27], Sub query, Lit ko_no_papers])) (\<lambda>s.
         io_return (text_content s))
       else
         io_bind (io_lift (template (num_str e) [Lit [0x27], Sub query, Lit ko_found_for,
                                     Sub (JNum (of_nat (length papers))), Lit ko_found_papers]))
           (\<lambda>header.
         io_bind (io_lift (format_papers (num_str e) 0 papers header)) (\<lambda>resultText.
         io_return (text_content resultText)))))))"

text \<open>\<open>MCPServer.getAbstractByDoiTool\<close>\<close>

definition getAbstractByDoiTool :: "env \<Rightarrow> jsval \<Rightarrow> jsval io" where
  "getAbstractByDoiTool e arguments =
     io_bind (io_lift (get_prop arguments (asc ''doi''))) (\<lambda>d.
     let doi = or_else d (JStr []) in
     if \<not> truthy doi then io_return (text_content ko_enter_doi)
     else
       io_bind (io_lift (console_error (num_str e) [doi])) (\<lambda>u.
       io_bind (getBestAbstract e doi) (\<lambda>abstractResult.
       if success abstractResult then
         io_bind (io_lift (template (num_str e)
            [Lit (asc ''DOI: ''), Sub doi, Lit [0xA],
             Lit ko_title, Sub (or_else (title abstractResult) (JStr (asc ''N/A''))), Lit [0xA],
             Lit ko_abstract_source, Lit (source abstractResult), Lit [0xA],
             Lit ko_abstract, Lit (abstract abstractResult), Lit [0xA]])) (\<lambda>resultText.
         io_return (text_content resultText))
       else
         io_bind (io_lift (template (num_str e) [Lit (asc ''DOI ''), Lit [0x27], Sub doi, Lit ko_not_found]))
           (\<lambda>s. io_return (text_content s)))))"

section \<open>Protocol Session\<close>

text \<open>
  A response object. \<open>JSON.stringify\<close> writes its properties in this order on one
  line; it leaves out \<open>id\<close> when its value is \<open>undefined\<close> and writes \<open>null\<close> for
  an infinite number. \<open>result\<close> and \<open>error\<close> are the property that the object has.
\<close>

record rpc_response =
  jsonrpc :: jsstring
  rpc_id :: jsval
  result :: "jsval option"
  error :: "(int \<times> jsstring) option"

text \<open>\<open>MCPServer.handleInitialize\<close>; it also sets \<open>this.initialized\<close>.\<close>

definition handleInitialize :: "jsval \<Rightarrow> rpc_response io" where
  "handleInitialize request =
     io_bind (io_lift (get_prop request (asc ''id''))) (\<lambda>i.
     io_return
       \<lparr>jsonrpc = asc ''2.0'', rpc_id = i,
        result = Some (JObj
          [(asc ''protocolVersion'', JStr (asc ''2024-11-05'')),
           (asc ''capabilities'', JObj [(asc ''tools'', JObj [])]),
           (asc ''serverInfo'', JObj [(asc ''name'', JStr (asc ''abstract-search'')),
                                     (asc ''version'', JStr (asc ''1.0.0''))])]),
        error = None\<rparr>)"

text \<open>\<open>MCPServer.handleListTools\<close>\<close>

definition tools :: jsval where
  "tools = JArr
     [JObj [(asc ''name'', JStr (asc ''search_papers'')),
            (asc ''description'', JStr ko_desc_search),
            (asc ''inputSchema'', JObj
               [(asc ''type'', JStr (asc ''object'')),
                (asc ''properties'', JObj
                   [(asc ''query'', JObj [(asc ''type'', JStr (asc ''string'')),
                                         (asc ''description'', JStr ko_desc_query)]),
                    (asc ''count'', JObj [(asc ''type'', JStr (asc ''integer'')),
                                         (asc ''description'', JStr ko_desc_count),
                                         (asc ''default'', JNum 10)])]),
                (asc ''required'', JArr [JStr (asc ''query'')])])],
      JObj [(asc ''name'', JStr (asc ''get_abstract_by_doi'')),
            (asc ''description'', JStr ko_desc_get),
            (asc ''inputSchema'', JObj
               [(asc ''type'', JStr (asc ''object'')),
                (asc ''properties'', JObj
                   [(asc ''doi'', JObj [(asc ''type'', JStr (asc ''string'')),
                                       (asc ''description'', JStr ko_desc_doi)])]),
                (asc ''required'', JArr [JStr (asc ''doi'')])])]]"

definition handleListTools :: "jsval \<Rightarrow> rpc_response io" where
  "handleListTools request =
     io_bind (io_lift (get_prop request (asc ''id''))) (\<lambda>i.
     io_return \<lparr>jsonrpc = asc ''2.0'', rpc_id = i,
                result = Some (JObj [(asc ''tools'', tools)]), error = None\<rparr>)"

text \<open>
  \<open>MCPServer.handleCallTool\<close>. The log line with the tool name stands before the
  \<open>try\<close>; what the tools raise is caught and reported as content.
\<close>

definition handleCallTool :: "env \<Rightarrow> jsval \<Rightarrow> rpc_response io" where
  "handleCallTool e request =
     io_bind (io_lift (get_prop request (asc ''params''))) (\<lambda>p.
     let params = or_else p (JObj []) in
     io_bind (io_lift (get_prop params (asc ''name''))) (\<lambda>name.
     io_bind (io_lift (get_prop params (asc ''arguments''))) (\<lambda>a.
     let arguments = or_else a (JObj []) in
     io_bind (io_lift (console_error (num_str e) [name])) (\<lambda>u.
     io_bind
       (io_catch
          (if name = JStr (asc ''search_papers'') then searchPapersTool e arguments
           else if name = JStr (asc ''get_abstract_by_doi'') then getAbstractByDoiTool e arguments
           else io_bind (io_lift (template (num_str e) [Lit ko_unknown_tool, Sub name])) (\<lambda>s.
                io_return (text_content s)))
          (\<lambda>error. io_return (text_content (ko_tool_error @ error_message error))))
       (\<lambda>content.
     io_bind (io_lift (get_prop request (asc ''id''))) (\<lambda>i.
     io_return \<lparr>jsonrpc = asc ''2.0'', rpc_id = i,
                result = Some (JObj [(asc ''content'', content)]), error = None\<rparr>))))))"

text \<open>
  The state of the server (\<open>this.initialized\<close>), the events so far and the lines
  written to the protocol stream, each given by the object that \<open>JSON.stringify\<close>
  serialized.
\<close>

record session =
  initialized :: bool
  events :: trace
  stdout :: "rpc_response list"

text \<open>
  The \<open>try\<close> block of the line handler after the test for a blank line: it gives the
  response (\<open>None\<close> for \<open>null\<close>) and the new value of \<open>initialized\<close>. The log line
  converts \<open>method\<close> and \<open>request.id\<close> to strings.
\<close>

definition dispatch :: "env \<Rightarrow> jsstring \<Rightarrow> bool \<Rightarrow> (rpc_response option \<times> bool) io" where
  "dispatch e line init =
     io_bind (io_lift (json_parse e (trim line))) (\<lambda>request.
     io_bind (io_lift (get_prop request (asc ''method''))) (\<lambda>meth.
     io_bind (io_lift (get_prop request (asc ''id''))) (\<lambda>i.
     io_bind (io_lift (console_error (num_str e) [meth, i])) (\<lambda>u.
     if meth = JStr (asc ''initialize'') then
       io_bind (handleInitialize request) (\<lambda>response. io_return (Some response, True))
     else if meth = JStr (asc ''tools/list'') then
       io_bind (handleListTools request) (\<lambda>response. io_return (Some response, init))
     else if meth = JStr (asc ''tools/call'') then
       io_bind (handleCallTool e request) (\<lambda>response. io_return (Some response, init))
     else if meth = JStr (asc ''notifications/initialized'') then
       io_return (None, init)
     else
       io_bind (io_lift (template (num_str e) [Lit (asc ''Method not found: ''), Sub meth])) (\<lambda>m.
       io_return (Some \<lparr>jsonrpc = asc ''2.0'', rpc_id = i, result = None,
                         error = Some (- 32601, m)\<rparr>, init))))))"

text \<open>
  The \<open>catch\<close> block of the line handler. It reads the identifier \<open>request\<close>;
  \<open>binding\<close> is what the identifier resolves to there, \<open>None\<close> when no scope
  declares it, in which case reading it raises a ReferenceError that nothing catches:
  the promise of the handler is rejected.
\<close>

datatype handler_outcome = Completed | Rejected js_error

definition catch_block ::
  "jsval option \<Rightarrow> js_error \<Rightarrow> session \<Rightarrow> handler_outcome \<times> session" where
  "catch_block binding err s =
     (case binding of
        None \<Rightarrow> (Rejected (ReferenceError (asc ''request is not defined'')), s)
      | Some request \<Rightarrow>
          (case (if truthy request then get_prop request (asc ''id'') else Inr JNull) of
             Inl e' \<Rightarrow> (Rejected e', s)
           | Inr i \<Rightarrow>
               (Completed,
                s\<lparr>stdout := stdout s @
                     [\<lparr>jsonrpc = asc ''2.0'', rpc_id = i, result = None,
                       error = Some (- 32603, asc ''Internal error: '' @ error_message err)\<rparr>]\<rparr>)))"

text \<open>
  \<open>const request\<close> is declared inside the \<open>try\<close> block, whose scope ends before
  \<open>catch\<close>; the handler, \<open>main\<close>, the module and the global object declare no
  \<open>request\<close>.
\<close>

definition request_in_catch :: "jsval option" where
  "request_in_catch = None"

text \<open>
  The callback of \<open>rl.on('line', ...)\<close> for one line, run from its start to its end.
  (The callbacks of two lines can take turns at their suspension points; they share
  nothing but \<open>initialized\<close>, and the properties below are about one callback.)
\<close>

definition handle_line :: "env \<Rightarrow> jsstring \<Rightarrow> session \<Rightarrow> handler_outcome \<times> session" where
  "handle_line e line s =
     (if trim line = [] then (Completed, s)
      else
        (case dispatch e line (initialized s) (events s) of
           (Inr (response, init), t) \<Rightarrow>
             (Completed,
              s\<lparr>initialized := init, events := t,
                stdout := (case response of None \<Rightarrow> stdout s | Some r \<Rightarrow> stdout s @ [r])\<rparr>)
         | (Inl err, t) \<Rightarrow> catch_block request_in_catch err (s\<lparr>events := t\<rparr>)))"

section \<open>Environments for concrete runs\<close>

text \<open>
  Two lines the parser accepts, with the values it gives for them; every other line is
  rejected with the message of \<open>JSON.parse\<close> for an input that ends too early.
\<close>

definition notification_line :: jsstring where
  "notification_line = asc ''{\"jsonrpc\":\"2.0\",\"method\":\"notifications/initialized\"}''"

definition odd_call_line :: jsstring where
  "odd_call_line =
     asc ''{\"jsonrpc\":\"2.0\",\"id\":1,\"method\":\"tools/call\",\"params\":{\"name\":{\"toString\":0}}}''"

definition odd_call :: jsval where
  "odd_call =
     JObj [(asc ''jsonrpc'', JStr (asc ''2.0'')), (asc ''id'', JNum 1),
           (asc ''method'', JStr (asc ''tools/call'')),
           (asc ''params'', JObj [(asc ''name'', JObj [(asc ''toString'', JNum 0)])])]"

definition demo_parse :: "jsstring \<Rightarrow> js_error + jsval" where
  "demo_parse s =
     (if s = notification_line
      then Inr (JObj [(asc ''jsonrpc'', JStr (asc ''2.0'')),
                      (asc ''method'', JStr (asc ''notifications/initialized''))])
      else if s = odd_call_line then Inr odd_call
      else Inl (SyntaxError (asc ''Unexpected end of JSON input'')))"

text \<open>
  The numbers converted to strings in these runs are the small whole numbers 1 and 10,
  which JavaScript prints in decimal notation; the printer of the runs gives the
  decimal notation of the whole part.
\<close>

definition whole_number_str :: "rat \<Rightarrow> jsstring" where
  "whole_number_str q = (if q < 0 then asc ''-'' else []) @ digits (nat \<lfloor>\<bar>q\<bar>\<rfloor>)"

text \<open>No provider can be reached.\<close>

definition offline_env :: env where
  "offline_env =
     \<lparr>scopusApiKey = asc ''demo-key'',
      net = (\<lambda>t r. Failed (asc ''connect ECONNREFUSED'')),
      xml_parse = (\<lambda>v. Inl (LibraryError (asc ''Non-whitespace before first tag.''))),
      json_parse = demo_parse,
      str_gt0 = (\<lambda>s. False),
      num_str = whole_number_str\<rparr>"

text \<open>Both abstract providers know the DOI \<open>10.1/x\<close>.\<close>

definition online_net :: "trace \<Rightarrow> http_request \<Rightarrow> http_outcome" where
  "online_net t r =
     (if url r = crossref_url @ asc ''/10.1/x'' then
        Response 200 (JObj [(asc ''message'',
          JObj [(asc ''abstract'', JStr (asc ''<p>Example abstract.</p>'')),
                (asc ''title'', JArr [JStr (asc ''A title'')])])])
      else if url r = pubmed_url @ asc ''/esearch.fcgi'' then
        Response 200 (JObj [(asc ''esearchresult'', JObj [(asc ''idlist'', JArr [JStr (asc ''123'')])])])
      else if url r = pubmed_url @ asc ''/efetch.fcgi'' then
        Response 200 (JStr (asc ''<PubmedArticleSet/>''))
      else Failed (asc ''connect ECONNREFUSED''))"

definition online_env :: env where
  "online_env =
     \<lparr>scopusApiKey = asc ''demo-key'',
      net = online_net,
      xml_parse = (\<lambda>v. Inr (JObj [(asc ''PubmedArticleSet'',
         JObj [(asc ''AbstractText'', JArr [JStr (asc ''From  the registry'')]),
               (asc ''ArticleTitle'', JArr [JStr (asc ''B title'')])])])),
      json_parse = demo_parse,
      str_gt0 = (\<lambda>s. False),
      num_str = whole_number_str\<rparr>"

definition start :: session where
  "start = \<lparr>initialized = False, events = [], stdout = []\<rparr>"

text \<open>Requests, answers and HTTP requests of the concrete runs.\<close>

definition unknown_call :: jsval where
  "unknown_call =
     JObj [(asc ''jsonrpc'', JStr (asc ''2.0'')), (asc ''id'', JNum 7),
           (asc ''method'', JStr (asc ''tools/call'')),
           (asc ''params'', JObj [(asc ''name'', JStr (asc ''delete_paper'')),
                                 (asc ''arguments'', JObj [])])]"


definition crossref_answer :: abstract_result where
  "crossref_answer =
     \<lparr>source = asc ''crossref'', abstract = asc ''Example abstract.'', success = True,
      title = JStr (asc ''A title''), quality_score = Some 9\<rparr>"

definition pubmed_answer :: abstract_result where
  "pubmed_answer =
     \<lparr>source = asc ''pubmed'', abstract = asc ''From the registry'', success = True,
      title = JStr (asc ''B title''), quality_score = Some 8\<rparr>"

definition crossref_get :: http_request where
  "crossref_get = \<lparr>url = crossref_url @ asc ''/10.1/x'', params = [], headers = [],
                   timeout = Some 10000\<rparr>"

definition esearch_get :: http_request where
  "esearch_get =
     \<lparr>url = pubmed_url @ asc ''/esearch.fcgi'',
      params = [(asc ''db'', JStr (asc ''pubmed'')), (asc ''term'', JStr (asc ''10.1/x[doi]'')),
                (asc ''retmode'', JStr (asc ''json''))],
      headers = [], timeout = Some 10000\<rparr>"

definition efetch_get :: http_request where
  "efetch_get =
     \<lparr>url = pubmed_url @ asc ''/efetch.fcgi'',
      params = [(asc ''db'', JStr (asc ''pubmed'')), (asc ''id'', JStr (asc ''123'')),
                (asc ''retmode'', JStr (asc ''xml''))],
      headers = [], timeout = Some 10000\<rparr>"

section \<open>Predicates on strings used to state the properties\<close>

text \<open>The tag expression \<open><[^>]+>\<close> matches somewhere in the string.\<close>

fun contains_tag :: "jsstring \<Rightarrow> bool" where
  "contains_tag [] = False"
| "contains_tag (c # cs) = (match_tag [CH_LT] (c # cs) \<noteq> None \<or> contains_tag cs)"

text \<open>
  The fixed points of \<open>collapse_ws\<close>: every white space unit is a single space that
  no white space follows.
\<close>

fun collapsed :: "jsstring \<Rightarrow> bool" where
  "collapsed [] = True"
| "collapsed (c # cs) =
     ((is_ws c \<longrightarrow> c = CH_SP \<and> (cs = [] \<or> \<not> is_ws (hd cs))) \<and> collapsed cs)"


text \<open>What \<open>cleanAbstract\<close> does to a string before it truncates.\<close>

definition pipeline :: "jsstring \<Rightarrow> jsstring" where
  "pipeline s = trim (collapse_ws (replace_tags (asc ''</jats:'')
                   (replace_tags (asc ''<jats:'') (replace_tags [CH_LT] s))))"

text \<open>The shape of every string that \<open>pipeline\<close> returns.\<close>

definition normal :: "jsstring \<Rightarrow> bool" where
  "normal t \<longleftrightarrow> \<not> contains_tag t \<and> collapsed t \<and>
                (t = [] \<or> (\<not> is_ws (hd t) \<and> \<not> is_ws (last t)))"

text \<open>Every result that the computation returns satisfies \<open>P\<close>.\<close>

definition returns_only :: "('a \<Rightarrow> bool) \<Rightarrow> 'a io \<Rightarrow> bool" where
  "returns_only P m \<longleftrightarrow> (\<forall>t r t'. m t = (Inr r, t') \<longrightarrow> P r)"

text \<open>
  A result of the adapter for \<open>src\<close>: its failure object, or a success with the
  quality score \<open>n\<close>.
\<close>

definition scored :: "jsstring \<Rightarrow> int \<Rightarrow> abstract_result \<Rightarrow> bool" where
  "scored src n r \<longleftrightarrow>
     r = no_abstract src \<or> (success r \<and> source r = src \<and> quality_score r = Some n)"

text \<open>The computation only appends to the trace.\<close>

definition grows :: "'a io \<Rightarrow> bool" where
  "grows m \<longleftrightarrow> (\<forall>t. \<exists>ext. snd (m t) = t @ ext)"

section \<open>Tag removal and white space: lemmas\<close>

lemma dropWhile_ne_iff: "dropWhile P xs \<noteq> [] \<longleftrightarrow> (\<exists>x\<in>set xs. \<not> P x)"
  by (induction xs) auto

lemma takeWhile_ne_iff: "takeWhile P xs \<noteq> [] \<longleftrightarrow> xs \<noteq> [] \<and> P (hd xs)"
  by (cases xs) auto

lemma match_lt_iff:
  "match_tag [CH_LT] (c # cs) \<noteq> None \<longleftrightarrow>
     c = CH_LT \<and> cs \<noteq> [] \<and> hd cs \<noteq> CH_GT \<and> CH_GT \<in> set cs"
  by (auto simp: match_tag_def Let_def dropWhile_ne_iff takeWhile_ne_iff)

lemma match_lt_Nil [simp]: "match_tag [CH_LT] [] = None"
  by (simp add: match_tag_def)

lemma set_replace_tags: "set (replace_tags pre s) \<subseteq> set s"
proof (induction pre s rule: replace_tags.induct)
  case (1 pre)
  then show ?case by simp
next
  case (2 pre c cs)
  show ?case
  proof (cases "match_tag pre (c # cs)")
    case None
    with 2 show ?thesis by auto
  next
    case (Some rest)
    let ?body = "drop (length pre) (c # cs)"
    from Some have "rest = tl (dropWhile (\<lambda>c. c \<noteq> CH_GT) ?body)"
      by (auto simp: match_tag_def Let_def split: if_splits)
    then have "set rest \<subseteq> set (c # cs)"
      by (metis (no_types, lifting) list.set_sel(2) set_drop_subset set_dropWhileD subsetI subset_trans tl_Nil)
    with 2 Some show ?thesis by auto
  qed
qed

lemma replace_lt_gt: "replace_tags [CH_LT] (CH_GT # cs) = CH_GT # replace_tags [CH_LT] cs"
  by (simp add: match_tag_def)

lemma no_tag_replace_tags: "\<not> contains_tag (replace_tags [CH_LT] s)"
proof (induction "[CH_LT]" s rule: replace_tags.induct)
  case 1
  then show ?case by simp
next
  case (2 c cs)
  show ?case
  proof (cases "match_tag [CH_LT] (c # cs)")
    case (Some rest)
    with 2 show ?thesis by simp
  next
    case None
    then have nm: "\<not> (c = CH_LT \<and> cs \<noteq> [] \<and> hd cs \<noteq> CH_GT \<and> CH_GT \<in> set cs)"
      using match_lt_iff [of c cs] by simp
    have "\<not> (c = CH_LT \<and> replace_tags [CH_LT] cs \<noteq> [] \<and>
              hd (replace_tags [CH_LT] cs) \<noteq> CH_GT \<and> CH_GT \<in> set (replace_tags [CH_LT] cs))"
    proof
      assume a: "c = CH_LT \<and> replace_tags [CH_LT] cs \<noteq> [] \<and>
              hd (replace_tags [CH_LT] cs) \<noteq> CH_GT \<and> CH_GT \<in> set (replace_tags [CH_LT] cs)"
      then have "CH_GT \<in> set cs" using set_replace_tags [of "[CH_LT]" cs] by auto
      with nm a have "cs \<noteq> []" "hd cs = CH_GT" by auto
      then obtain cs' where "cs = CH_GT # cs'" by (cases cs) auto
      then have "hd (replace_tags [CH_LT] cs) = CH_GT" by (simp add: match_tag_def)
      with a show False by simp
    qed
    then have "match_tag [CH_LT] (c # replace_tags [CH_LT] cs) = None"
      using match_lt_iff [of c "replace_tags [CH_LT] cs"] by blast
    with 2 None show ?thesis by simp
  qed
qed

lemma match_longer_prefix:
  assumes "match_tag (CH_LT # pre) s \<noteq> None" and "CH_GT \<notin> set pre"
  shows "match_tag [CH_LT] s \<noteq> None"
proof -
  let ?p = "CH_LT # pre"
  let ?body = "drop (length ?p) s"
  from assms(1) have tk: "take (length ?p) s = ?p"
    and run: "takeWhile (\<lambda>c. c \<noteq> CH_GT) ?body \<noteq> []"
    and rest: "dropWhile (\<lambda>c. c \<noteq> CH_GT) ?body \<noteq> []"
    by (auto simp: match_tag_def Let_def split: if_splits)
  from tk have s: "s = CH_LT # (pre @ ?body)"
    by (metis append_Cons append_take_drop_id)
  from run have b: "?body \<noteq> []" "hd ?body \<noteq> CH_GT" by (auto simp: takeWhile_ne_iff)
  from rest have g: "CH_GT \<in> set ?body" by (auto simp: dropWhile_ne_iff)
  have h: "hd (pre @ ?body) \<noteq> CH_GT"
    using b assms(2) by (cases pre) auto
  have "match_tag [CH_LT] (CH_LT # (pre @ ?body)) \<noteq> None"
    unfolding match_lt_iff using b g h by auto
  with s show ?thesis by metis
qed

lemma replace_tags_id:
  "\<not> contains_tag s \<Longrightarrow> CH_GT \<notin> set pre \<Longrightarrow> replace_tags (CH_LT # pre) s = s"
proof (induction s)
  case Nil
  then show ?case by simp
next
  case (Cons c cs)
  then have "match_tag [CH_LT] (c # cs) = None" by simp
  with Cons.prems(2) have "match_tag (CH_LT # pre) (c # cs) = None"
    using match_longer_prefix by blast
  with Cons show ?case by simp
qed

lemma contains_tag_append:
  "contains_tag xs \<Longrightarrow> contains_tag (xs @ ys)"
  "contains_tag ys \<Longrightarrow> contains_tag (xs @ ys)"
proof -
  show "contains_tag xs \<Longrightarrow> contains_tag (xs @ ys)"
  proof (induction xs)
    case Nil
    then show ?case by simp
  next
    case (Cons c cs)
    then show ?case
      using match_lt_iff [of c cs] match_lt_iff [of c "cs @ ys"] by (cases cs) auto
  qed
  show "contains_tag ys \<Longrightarrow> contains_tag (xs @ ys)"
    by (induction xs) auto
qed

lemma no_tag_append:
  "\<not> contains_tag xs \<Longrightarrow> \<not> contains_tag ys \<Longrightarrow> CH_GT \<notin> set ys \<Longrightarrow>
   \<not> contains_tag (xs @ ys)"
proof (induction xs)
  case Nil
  then show ?case by simp
next
  case (Cons c cs)
  then show ?case
    using match_lt_iff [of c cs] match_lt_iff [of c "cs @ ys"] by (cases cs) auto
qed

lemma set_collapse_ws: "set (collapse_ws s) \<subseteq> insert CH_SP (set s)"
proof (induction s rule: collapse_ws.induct)
  case 1
  then show ?case by simp
next
  case (2 c cs)
  then show ?case by (auto dest: set_dropWhileD)
qed

lemma gt_not_ws: "\<not> is_ws CH_GT" by (simp add: is_ws_def)

lemma no_tag_collapse_ws: "\<not> contains_tag s \<Longrightarrow> \<not> contains_tag (collapse_ws s)"
proof (induction s rule: collapse_ws.induct)
  case 1
  then show ?case by simp
next
  case (2 c cs)
  show ?case
  proof (cases "is_ws c")
    case True
    have "cs = takeWhile is_ws cs @ dropWhile is_ws cs" by simp
    then have "\<not> contains_tag (dropWhile is_ws cs)"
      using "2.prems" contains_tag_append(2) [of "dropWhile is_ws cs" "takeWhile is_ws cs"]
      by auto
    with 2 True have "\<not> contains_tag (collapse_ws (dropWhile is_ws cs))" by simp
    with True show ?thesis by (simp add: match_tag_def)
  next
    case False
    with 2 have ih: "\<not> contains_tag (collapse_ws cs)" by simp
    from "2.prems" have nm: "\<not> (c = CH_LT \<and> cs \<noteq> [] \<and> hd cs \<noteq> CH_GT \<and> CH_GT \<in> set cs)"
      using match_lt_iff [of c cs] by simp
    have "\<not> (c = CH_LT \<and> collapse_ws cs \<noteq> [] \<and> hd (collapse_ws cs) \<noteq> CH_GT \<and>
              CH_GT \<in> set (collapse_ws cs))"
    proof
      assume a: "c = CH_LT \<and> collapse_ws cs \<noteq> [] \<and> hd (collapse_ws cs) \<noteq> CH_GT \<and>
              CH_GT \<in> set (collapse_ws cs)"
      then have "CH_GT \<in> set cs" using set_collapse_ws [of cs] by auto
      with nm a obtain cs' where "cs = CH_GT # cs'" by (cases cs) auto
      then have "hd (collapse_ws cs) = CH_GT" by (simp add: gt_not_ws)
      with a show False by simp
    qed
    then have "match_tag [CH_LT] (c # collapse_ws cs) = None"
      using match_lt_iff [of c "collapse_ws cs"] by blast
    with ih False show ?thesis by simp
  qed
qed

lemma trim_decomp: "\<exists>a b. s = a @ trim s @ b \<and> a = takeWhile is_ws s"
proof -
  let ?u = "dropWhile is_ws s"
  have "rev ?u = takeWhile is_ws (rev ?u) @ dropWhile is_ws (rev ?u)" by simp
  then have "?u = rev (dropWhile is_ws (rev ?u)) @ rev (takeWhile is_ws (rev ?u))"
    by (metis rev_append rev_rev_ident)
  then have "s = takeWhile is_ws s @ trim s @ rev (takeWhile is_ws (rev ?u))"
    by (metis takeWhile_dropWhile_id trim_def)
  then show ?thesis by blast
qed

lemma no_tag_trim: "\<not> contains_tag s \<Longrightarrow> \<not> contains_tag (trim s)"
proof -
  assume n: "\<not> contains_tag s"
  obtain a b where s: "s = a @ trim s @ b" using trim_decomp by blast
  show ?thesis
  proof
    assume "contains_tag (trim s)"
    then have "contains_tag (trim s @ b)" by (rule contains_tag_append(1))
    then have "contains_tag (a @ trim s @ b)" by (rule contains_tag_append(2))
    with s n show False by simp
  qed
qed

lemma trim_ends: "trim s = [] \<or> (\<not> is_ws (hd (trim s)) \<and> \<not> is_ws (last (trim s)))"
proof (cases "trim s = []")
  case True
  then show ?thesis by simp
next
  case False
  let ?u = "dropWhile is_ws s"
  let ?v = "dropWhile is_ws (rev ?u)"
  have t: "trim s = rev ?v" by (simp add: trim_def)
  with False have v: "?v \<noteq> []" by simp
  then have hv: "\<not> is_ws (hd ?v)" by (rule hd_dropWhile)
  have u: "?u \<noteq> []"
  proof
    assume "?u = []"
    then have "?v = []" by (metis dropWhile.simps(1) rev.simps(1))
    with v show False by blast
  qed
  then have hu: "\<not> is_ws (hd ?u)" by (rule hd_dropWhile)
  have "rev ?u = takeWhile is_ws (rev ?u) @ ?v" by simp
  with v have "last ?v = last (rev ?u)" by (metis last_appendR)
  also have "\<dots> = hd ?u" using u by (simp add: last_rev)
  finally have "hd (trim s) = hd ?u" using v t by (simp add: hd_rev)
  moreover have "last (trim s) = hd ?v" using v t by (simp add: last_rev)
  ultimately show ?thesis using hu hv by simp
qed

lemma trim_id: "s = [] \<or> (\<not> is_ws (hd s) \<and> \<not> is_ws (last s)) \<Longrightarrow> trim s = s"
proof (cases "s = []")
  case True
  then show ?thesis by (simp add: trim_def)
next
  case False
  assume "s = [] \<or> (\<not> is_ws (hd s) \<and> \<not> is_ws (last s))"
  with False have h: "\<not> is_ws (hd s)" and l: "\<not> is_ws (last s)" by auto
  from False h have "dropWhile is_ws s = s" by (cases s) auto
  moreover have "dropWhile is_ws (rev s) = rev s"
  proof -
    from False l have "\<not> is_ws (hd (rev s))" by (simp add: hd_rev)
    with False show ?thesis by (cases "rev s") auto
  qed
  ultimately show ?thesis by (simp add: trim_def)
qed

lemma collapsed_collapse_ws: "collapsed (collapse_ws s)"
proof (induction s rule: collapse_ws.induct)
  case 1
  then show ?case by simp
next
  case (2 c cs)
  show ?case
  proof (cases "is_ws c")
    case True
    define d where "d = dropWhile is_ws cs"
    have "d = [] \<or> \<not> is_ws (hd d)"
      unfolding d_def using hd_dropWhile [of is_ws cs] by blast
    then have "collapse_ws d = [] \<or> \<not> is_ws (hd (collapse_ws d))"
      by (cases d) auto
    then have "collapse_ws (dropWhile is_ws cs) = [] \<or>
               \<not> is_ws (hd (collapse_ws (dropWhile is_ws cs)))"
      by (simp only: d_def)
    with 2 True show ?thesis by simp
  next
    case False
    with 2 show ?thesis by simp
  qed
qed

lemma collapse_ws_id: "collapsed s \<Longrightarrow> collapse_ws s = s"
proof (induction s)
  case Nil
  then show ?case by simp
next
  case (Cons c cs)
  show ?case
  proof (cases "is_ws c")
    case True
    with Cons.prems have c: "c = CH_SP" and n: "cs = [] \<or> \<not> is_ws (hd cs)" by auto
    from n have "dropWhile is_ws cs = cs" by (cases cs) auto
    with Cons True c show ?thesis by simp
  next
    case False
    with Cons show ?thesis by simp
  qed
qed

lemma collapsed_appendD: "collapsed (xs @ ys) \<Longrightarrow> collapsed xs \<and> collapsed ys"
proof (induction xs)
  case Nil
  then show ?case by simp
next
  case (Cons c cs)
  then show ?case by (cases cs) auto
qed

lemma collapsed_appendI:
  "collapsed xs \<Longrightarrow> collapsed ys \<Longrightarrow> ys = [] \<or> \<not> is_ws (hd ys) \<Longrightarrow> collapsed (xs @ ys)"
proof (induction xs)
  case Nil
  then show ?case by simp
next
  case (Cons c cs)
  then show ?case by (cases cs) auto
qed

lemma collapsed_trim: "collapsed s \<Longrightarrow> collapsed (trim s)"
proof -
  assume c: "collapsed s"
  obtain a b where "s = a @ trim s @ b" using trim_decomp by blast
  with c have "collapsed (a @ trim s @ b)" by simp
  then have "collapsed (trim s @ b)" using collapsed_appendD by blast
  then show ?thesis using collapsed_appendD by blast
qed

lemma jats_prefixes:
  "asc ''<jats:'' = CH_LT # asc ''jats:''" "CH_GT \<notin> set (asc ''jats:'')"
  "asc ''</jats:'' = CH_LT # asc ''/jats:''" "CH_GT \<notin> set (asc ''/jats:'')"
  by (simp_all add: asc_def)

lemma pipeline_no_tag:
  assumes "\<not> contains_tag s"
  shows "pipeline s = trim (collapse_ws s)"
proof -
  have "replace_tags [CH_LT] s = s"
    using assms replace_tags_id [of s "[]"] by simp
  moreover have "replace_tags (asc ''<jats:'') s = s"
    using assms replace_tags_id [OF _ jats_prefixes(2)] by (simp only: jats_prefixes(1))
  moreover have "replace_tags (asc ''</jats:'') s = s"
    using assms replace_tags_id [OF _ jats_prefixes(4)] by (simp only: jats_prefixes(3))
  ultimately show ?thesis by (simp add: pipeline_def)
qed

lemma normal_pipeline: "normal (pipeline s)"
proof -
  let ?r = "replace_tags [CH_LT] s"
  have r: "\<not> contains_tag ?r" by (rule no_tag_replace_tags)
  have p: "pipeline s = trim (collapse_ws ?r)"
    unfolding pipeline_def
    by (simp only: jats_prefixes(1,3) replace_tags_id [OF r jats_prefixes(2)]
          replace_tags_id [OF r jats_prefixes(4)])
  have "\<not> contains_tag (trim (collapse_ws ?r))"
    using r by (intro no_tag_trim no_tag_collapse_ws)
  moreover have "collapsed (trim (collapse_ws ?r))"
    by (intro collapsed_trim collapsed_collapse_ws)
  ultimately show ?thesis using trim_ends [of "collapse_ws ?r"] by (simp add: normal_def p)
qed

lemma pipeline_normal: "normal t \<Longrightarrow> pipeline t = t"
  by (simp add: normal_def pipeline_no_tag collapse_ws_id trim_id)

lemma dots_facts:
  "asc ''...'' = [0x2E, 0x2E, 0x2E]" "\<not> is_ws 0x2E"
  by (simp_all add: asc_def is_ws_def)

lemma normal_truncated:
  assumes "normal t" and "500 < length t"
  shows "normal (take 500 t @ asc ''...'')"
proof -
  let ?p = "take 500 t"
  have t: "t = ?p @ drop 500 t" by simp
  from assms(2) have pne: "?p \<noteq> []" by auto
  have "\<not> contains_tag ?p"
    using assms(1) contains_tag_append(1) [of ?p "drop 500 t"] by (auto simp: normal_def)
  moreover have "\<not> contains_tag (asc ''...'')"
    by (simp add: dots_facts match_tag_def)
  ultimately have a: "\<not> contains_tag (?p @ asc ''...'')"
    by (rule no_tag_append) (simp add: dots_facts)
  have "collapsed ?p"
    using assms(1) collapsed_appendD [of ?p "drop 500 t"] by (simp add: normal_def)
  moreover have "collapsed (asc ''...'')" by (simp add: dots_facts)
  ultimately have b: "collapsed (?p @ asc ''...'')"
    by (rule collapsed_appendI) (simp add: dots_facts)
  from assms have "\<not> is_ws (hd t)" by (auto simp: normal_def)
  then have c: "\<not> is_ws (hd (?p @ asc ''...''))" using assms(2) by (cases t) auto
  have d: "\<not> is_ws (last (?p @ asc ''...''))" by (simp add: dots_facts)
  from a b c d show ?thesis by (simp add: normal_def)
qed

lemma cleanAbstract_str:
  "s \<noteq> [] \<Longrightarrow> s \<noteq> asc ''N/A'' \<Longrightarrow>
   cleanAbstract (JStr s) =
     Inr (if 500 < length (pipeline s) then take 500 (pipeline s) @ asc ''...'' else pipeline s)"
  by (simp add: cleanAbstract_def pipeline_def Let_def)

lemma cleanAbstract_cases:
  assumes "cleanAbstract v = Inr s"
  shows "s = asc ''N/A'' \<or>
         (\<exists>x. v = JStr x \<and> x \<noteq> [] \<and> x \<noteq> asc ''N/A'' \<and>
           s = (if 500 < length (pipeline x) then take 500 (pipeline x) @ asc ''...'' else pipeline x))"
proof (cases "\<not> truthy v \<or> v = JStr (asc ''N/A'')")
  case True
  with assms show ?thesis by (auto simp: cleanAbstract_def)
next
  case False
  with assms obtain x where v: "v = JStr x"
    by (cases v) (auto simp: cleanAbstract_def)
  with False have "x \<noteq> []" "x \<noteq> asc ''N/A''" by auto
  with assms v show ?thesis using cleanAbstract_str [of x] by auto
qed

lemma cleanAbstract_NA: "cleanAbstract (JStr (asc ''N/A'')) = Inr (asc ''N/A'')"
  by (simp add: cleanAbstract_def)

lemma collapsed_lead: "collapsed s \<Longrightarrow> length s \<le> Suc (length (dropWhile is_ws s))"
proof (cases s)
  case Nil
  then show ?thesis by simp
next
  case (Cons c cs)
  assume "collapsed s"
  with Cons have "is_ws c \<Longrightarrow> cs = [] \<or> \<not> is_ws (hd cs)" by simp
  then have "is_ws c \<Longrightarrow> dropWhile is_ws cs = cs" by (cases cs) auto
  with Cons show ?thesis by (cases "is_ws c") auto
qed

lemma collapsed_trail: "collapsed s \<Longrightarrow> length s \<le> Suc (length (dropWhile is_ws (rev s)))"
proof (cases s rule: rev_cases)
  case Nil
  then show ?thesis by simp
next
  case (snoc ys a)
  assume c: "collapsed s"
  show ?thesis
  proof (cases "is_ws a")
    case False
    with snoc show ?thesis by simp
  next
    case True
    have "dropWhile is_ws (rev ys) = rev ys"
    proof (cases ys rule: rev_cases)
      case Nil
      then show ?thesis by simp
    next
      case (snoc zs b)
      with c \<open>s = ys @ [a]\<close> have "collapsed (zs @ [b, a])" by simp
      then have "collapsed [b, a]" using collapsed_appendD by blast
      with True have "\<not> is_ws b" by auto
      with snoc show ?thesis by simp
    qed
    with snoc True show ?thesis by simp
  qed
qed

lemma collapsed_dropWhile: "collapsed s \<Longrightarrow> collapsed (dropWhile is_ws s)"
  using collapsed_appendD [of "takeWhile is_ws s" "dropWhile is_ws s"] by simp

lemma length_trim_collapsed: "collapsed s \<Longrightarrow> length s \<le> length (trim s) + 2"
proof -
  assume c: "collapsed s"
  let ?u = "dropWhile is_ws s"
  from c have "length s \<le> Suc (length ?u)" by (rule collapsed_lead)
  moreover have "length ?u \<le> Suc (length (dropWhile is_ws (rev ?u)))"
    using c by (intro collapsed_trail collapsed_dropWhile)
  ultimately show ?thesis by (simp add: trim_def)
qed

lemma trim_prefix: "\<not> is_ws (hd s) \<Longrightarrow> \<exists>b. s = trim s @ b"
proof -
  assume "\<not> is_ws (hd s)"
  then have "takeWhile is_ws s = []" by (cases s) auto
  with trim_decomp [of s] show ?thesis by auto
qed

lemma collapse_ws_replicate: "\<not> is_ws a \<Longrightarrow> collapse_ws (replicate n a) = replicate n a"
  by (induction n) auto

lemma no_lt_no_tag: "CH_LT \<notin> set s \<Longrightarrow> \<not> contains_tag s"
  by (induction s) (auto simp: match_tag_def)

lemma a_not_ws: "\<not> is_ws 0x61" by (simp add: is_ws_def)

text \<open>
  A single leading space is not changed by the white space replacement; \<open>trim\<close>
  removes it, and the 500 code units kept start after it.
\<close>

lemma dropWhile_replicate_id: "\<not> P a \<Longrightarrow> dropWhile P (replicate n a) = replicate n a"
  by (cases n) simp_all

lemma leading_space_is_trimmed:
  "collapse_ws (CH_SP # replicate 9999 0x61) = CH_SP # replicate 9999 0x61 \<and>
   cleanAbstract (JStr (CH_SP # replicate 9999 0x61)) = Inr (replicate 500 0x61 @ asc ''...'')"
proof -
  let ?r = "replicate 9999 (0x61 :: 16 word)"
  have sp: "is_ws CH_SP" by (simp add: is_ws_def)
  have d: "dropWhile is_ws ?r = ?r" by (rule dropWhile_replicate_id) (rule a_not_ws)
  have ws: "collapse_ws (CH_SP # ?r) = CH_SP # ?r"
    using sp d collapse_ws_replicate [OF a_not_ws, of 9999] by simp
  have tags: "\<not> contains_tag (CH_SP # ?r)" by (rule no_lt_no_tag) simp
  have p: "pipeline (CH_SP # ?r) = trim (CH_SP # ?r)" using pipeline_no_tag [OF tags] ws by simp
  have t: "trim (CH_SP # ?r) = ?r"
    using sp d by (simp add: trim_def)
  have "CH_SP # ?r \<noteq> asc ''N/A''" by (simp add: asc_def)
  then have "cleanAbstract (JStr (CH_SP # ?r)) = Inr (replicate 500 0x61 @ asc ''...'')"
    using cleanAbstract_str [of "CH_SP # ?r"] p t by (simp add: take_replicate)
  with ws show ?thesis by simp
qed

section \<open>Computations: lemmas\<close>

lemma io_bind_return [simp]: "io_bind (io_return x) f = f x"
  by (rule ext) (simp add: io_bind_def io_return_def)

lemma io_bind_lift_Inr [simp]: "io_bind (io_lift (Inr x)) f = f x"
  by (rule ext) (simp add: io_bind_def io_lift_def)

lemma io_bind_lift_Inl [simp]: "io_bind (io_lift (Inl e)) f = io_lift (Inl e)"
  by (rule ext) (simp add: io_bind_def io_lift_def)

lemma io_catch_return [simp]: "io_catch (io_return x) h = io_return x"
  by (rule ext) (simp add: io_catch_def io_return_def)

lemma io_catch_lift_Inl [simp]: "io_catch (io_lift (Inl e)) h = h e"
  by (rule ext) (simp add: io_catch_def io_lift_def)

lemma io_bind_apply_Inr: "m t = (Inr x, t') \<Longrightarrow> io_bind m f t = f x t'"
  by (simp add: io_bind_def)

lemma io_bind_apply_Inl: "m t = (Inl e, t') \<Longrightarrow> io_bind m f t = (Inl e, t')"
  by (simp add: io_bind_def)

lemma sleep_apply: "sleep ms t = (Inr (), t @ [Sleep ms])"
  by (simp add: sleep_def)

lemma get_prop_total:
  "get_prop v k = Inr x \<Longrightarrow> \<exists>y. get_prop v k' = Inr y"
  by (cases v) auto

lemma truthy_get_prop: "truthy v \<Longrightarrow> \<exists>y. get_prop v k = Inr y"
  by (cases v) auto

lemma console_error_Cons:
  "console_error pr (v # vs) =
     (case js_to_string pr v of Inl e \<Rightarrow> Inl e | Inr s \<Rightarrow> console_error pr vs)"
  by (simp add: console_error_def split: sum.splits)

lemma console_error_Nil [simp]: "console_error pr [] = Inr ()"
  by (simp add: console_error_def)

lemma console_error_ok [simp]:
  "js_to_string pr v = Inr s \<Longrightarrow> console_error pr (v # vs) = console_error pr vs"
  by (simp add: console_error_Cons)

lemma console_error_fails [simp]:
  "js_to_string pr v = Inl e \<Longrightarrow> console_error pr (v # vs) = Inl e"
  by (simp add: console_error_Cons)

lemma returns_onlyD: "returns_only P m \<Longrightarrow> m t = (Inr r, t') \<Longrightarrow> P r"
  by (auto simp: returns_only_def)

lemma returns_only_return: "P x \<Longrightarrow> returns_only P (io_return x)"
  by (simp add: returns_only_def io_return_def)

lemma returns_only_bind: "(\<And>x. returns_only P (f x)) \<Longrightarrow> returns_only P (io_bind m f)"
  by (auto simp: returns_only_def io_bind_def split: prod.splits sum.splits)

lemma returns_only_catch:
  "returns_only P m \<Longrightarrow> (\<And>e. returns_only P (h e)) \<Longrightarrow> returns_only P (io_catch m h)"
  by (auto simp: returns_only_def io_catch_def split: prod.splits sum.splits)

lemma returns_only_if:
  "(c \<Longrightarrow> returns_only P a) \<Longrightarrow> (\<not> c \<Longrightarrow> returns_only P b) \<Longrightarrow>
   returns_only P (if c then a else b)"
  by simp

lemma returns_only_let: "returns_only P (f x) \<Longrightarrow> returns_only P (Let x f)"
  by simp

lemma returns_only_case_prod:
  "(\<And>a b. returns_only P (f a b)) \<Longrightarrow> returns_only P (case_prod f x)"
  by (cases x) simp

lemmas returns_only_intros =
  returns_only_bind returns_only_catch returns_only_if returns_only_let
  returns_only_case_prod returns_only_return

lemma crossref_scored: "returns_only (scored (asc ''crossref'') 9) (getAbstractFromCrossref e doi)"
  unfolding getAbstractFromCrossref_def
  by (intro returns_only_intros) (simp_all add: scored_def)

lemma pubmed_record_scored: "returns_only (scored (asc ''pubmed'') 8) (pubmed_record e d)"
  unfolding pubmed_record_def
  by (intro returns_only_intros) (simp_all add: scored_def)

lemma pubmed_lookup_scored: "returns_only (scored (asc ''pubmed'') 8) (pubmed_lookup e d)"
  unfolding pubmed_lookup_def
  by (intro returns_only_intros pubmed_record_scored) (simp_all add: scored_def)

lemma pubmed_scored: "returns_only (scored (asc ''pubmed'') 8) (getAbstractFromPubMed e doi)"
  unfolding getAbstractFromPubMed_def
  by (intro returns_only_intros pubmed_lookup_scored) (simp_all add: scored_def)

lemma no_abstract_fails [simp]: "\<not> success (no_abstract src)"
  by (simp add: no_abstract_def)

lemma crossref_success:
  "getAbstractFromCrossref e doi t = (Inr a, t1) \<Longrightarrow> success a \<Longrightarrow>
   source a = asc ''crossref'' \<and> quality_score a = Some 9"
  using returns_onlyD [OF crossref_scored, of e doi t a t1] by (auto simp: scored_def)

lemma pubmed_success:
  "getAbstractFromPubMed e doi t = (Inr b, t2) \<Longrightarrow> success b \<Longrightarrow>
   source b = asc ''pubmed'' \<and> quality_score b = Some 8"
  using returns_onlyD [OF pubmed_scored, of e doi t b t2] by (auto simp: scored_def)

lemma query_both:
  assumes "f doi t = (Inr a, t1)" and "g doi (t1 @ [Sleep 300]) = (Inr b, t2)"
  shows "query_sources [f, g] doi [] t =
           (Inr ((if success a then [a] else []) @ (if success b then [b] else [])),
            t2 @ [Sleep 300])"
  using assms by (simp add: io_bind_def sleep_def io_return_def)

lemma growsD: "grows m \<Longrightarrow> \<exists>r ext. m t = (r, t @ ext)"
  unfolding grows_def by (metis prod.collapse)

lemma grows_return: "grows (io_return x)"
  by (simp add: grows_def io_return_def)

lemma grows_lift: "grows (io_lift r)"
  by (simp add: grows_def io_lift_def)

lemma grows_sleep: "grows (sleep n)"
  by (simp add: grows_def sleep_def)

lemma grows_axios_get: "grows (axios_get e r)"
  by (simp add: grows_def axios_get_def)

lemma grows_bind:
  assumes "grows m" and "\<And>x. grows (f x)"
  shows "grows (io_bind m f)"
  unfolding grows_def
proof
  fix t
  obtain r ext where m: "m t = (r, t @ ext)" using growsD [OF assms(1)] by blast
  show "\<exists>ext. snd (io_bind m f t) = t @ ext"
  proof (cases r)
    case (Inl err)
    with m show ?thesis by (simp add: io_bind_def)
  next
    case (Inr x)
    obtain r' ext' where "f x (t @ ext) = (r', (t @ ext) @ ext')"
      using growsD [OF assms(2)] by blast
    with m Inr show ?thesis by (simp add: io_bind_def)
  qed
qed

lemma grows_catch:
  assumes "grows m" and "\<And>err. grows (h err)"
  shows "grows (io_catch m h)"
  unfolding grows_def
proof
  fix t
  obtain r ext where m: "m t = (r, t @ ext)" using growsD [OF assms(1)] by blast
  show "\<exists>ext. snd (io_catch m h t) = t @ ext"
  proof (cases r)
    case (Inr x)
    with m show ?thesis by (simp add: io_catch_def)
  next
    case (Inl err)
    obtain r' ext' where "h err (t @ ext) = (r', (t @ ext) @ ext')"
      using growsD [OF assms(2)] by blast
    with m Inl show ?thesis by (simp add: io_catch_def)
  qed
qed

lemma grows_if: "(c \<Longrightarrow> grows a) \<Longrightarrow> (\<not> c \<Longrightarrow> grows b) \<Longrightarrow> grows (if c then a else b)"
  by simp

lemma grows_let: "grows (f x) \<Longrightarrow> grows (Let x f)"
  by simp

lemma grows_case_prod: "(\<And>a b. grows (f a b)) \<Longrightarrow> grows (case_prod f x)"
  by (cases x) simp

lemma grows_case_list:
  "grows a \<Longrightarrow> (\<And>y ys. grows (f y ys)) \<Longrightarrow> grows (case xs of [] \<Rightarrow> a | y # ys \<Rightarrow> f y ys)"
  by (cases xs) simp_all

lemmas grows_intros =
  grows_bind grows_catch grows_if grows_let grows_case_prod grows_case_list
  grows_return grows_lift grows_sleep grows_axios_get

lemma grows_and_prop: "grows (and_prop a k)"
  unfolding and_prop_def by (intro grows_intros)

lemma grows_searchScopus: "grows (searchScopus e q c)"
  unfolding searchScopus_def by (intro grows_intros)

lemma grows_crossref: "grows (getAbstractFromCrossref e doi)"
  unfolding getAbstractFromCrossref_def by (intro grows_intros)

lemma grows_pubmed_record: "grows (pubmed_record e d)"
  unfolding pubmed_record_def by (intro grows_intros grows_and_prop)

lemma grows_pubmed_lookup: "grows (pubmed_lookup e d)"
  unfolding pubmed_lookup_def by (intro grows_intros grows_and_prop grows_pubmed_record)

lemma grows_pubmed: "grows (getAbstractFromPubMed e doi)"
  unfolding getAbstractFromPubMed_def by (intro grows_intros grows_pubmed_lookup)

lemma grows_query_sources:
  "(\<And>f. f \<in> set fs \<Longrightarrow> grows (f doi)) \<Longrightarrow> grows (query_sources fs doi results)"
proof (induction fs arbitrary: results)
  case Nil
  then show ?case by (simp add: grows_return)
next
  case (Cons f fs)
  show ?case
    unfolding query_sources.simps
    by (intro grows_intros Cons.IH) (simp_all add: Cons.prems)
qed

lemma grows_getBestAbstract: "grows (getBestAbstract e doi)"
  unfolding getBestAbstract_def
  by (intro grows_intros grows_query_sources) (auto simp: grows_crossref grows_pubmed)

lemma grows_assemble_paper: "grows (assemble_paper e entry)"
  unfolding assemble_paper_def by (intro grows_intros grows_getBestAbstract)

lemma grows_assemble: "grows (assemble e es papers)"
proof (induction es arbitrary: papers)
  case Nil
  then show ?case by (simp add: grows_return)
next
  case (Cons entry es)
  show ?case
    unfolding assemble.simps by (intro grows_intros grows_assemble_paper Cons.IH)
qed

lemma searchScopus_apply:
  "\<exists>v. searchScopus e q c t =
         (Inr v, t @ [HttpGet (scopus_request e q (if c = JUndefined then JNum 10 else c))])"
proof -
  define c' where "c' = (if c = JUndefined then JNum 10 else c)"
  have s: "searchScopus e q c =
      io_catch
        (io_bind (axios_get e (scopus_request e q c')) (\<lambda>(status, data).
           io_return (if status = 200 then data else JObj [])))
        (\<lambda>error. io_return (JObj []))"
    by (simp add: searchScopus_def c'_def Let_def)
  have "\<exists>v. searchScopus e q c t = (Inr v, t @ [HttpGet (scopus_request e q c')])"
    unfolding s
    by (cases "net e t (scopus_request e q c')")
       (simp_all add: io_catch_def io_bind_def axios_get_def io_return_def)
  then show ?thesis by (simp only: c'_def)
qed

lemma searchPapersWithAbstracts_first:
  "\<exists>r rest. searchPapersWithAbstracts e q c t =
     (r, t @ HttpGet (scopus_request e q (if c = JUndefined then JNum 10 else c)) # rest)"
proof -
  let ?c = "if c = JUndefined then JNum 10 else c"
  let ?k = "\<lambda>results.
         io_bind (and_prop results (asc ''search-results'')) (\<lambda>sr.
         if truthy sr then
           io_bind (io_lift (get_prop sr (asc ''entry''))) (\<lambda>en.
           let entries = or_else en (JArr []) in
           io_bind (io_lift (iterate entries)) (\<lambda>es. assemble e es []))
         else io_return [])"
  obtain v where v: "searchScopus e q ?c t = (Inr v, t @ [HttpGet (scopus_request e q ?c)])"
    using searchScopus_apply [of e q ?c t] by auto
  have "grows (?k v)" by (intro grows_intros grows_and_prop grows_assemble)
  then obtain r ext where "?k v (t @ [HttpGet (scopus_request e q ?c)]) =
      (r, (t @ [HttpGet (scopus_request e q ?c)]) @ ext)"
    using growsD by blast
  with v have "searchPapersWithAbstracts e q c t = (r, t @ HttpGet (scopus_request e q ?c) # ext)"
    by (simp add: searchPapersWithAbstracts_def Let_def io_bind_apply_Inr)
  then show ?thesis by blast
qed

lemma method_names_distinct:
  "asc ''tools/call'' \<noteq> asc ''initialize''" "asc ''tools/call'' \<noteq> asc ''tools/list''"
  "asc ''tools/call'' \<noteq> asc ''notifications/initialized''"
  by (simp_all add: asc_def)

lemma catch_total: "\<exists>x t'. io_catch m (\<lambda>err. io_return (g err)) t = (Inr x, t')"
proof (cases "m t")
  case (Pair r t')
  then show ?thesis by (cases r) (simp_all add: io_catch_def io_return_def)
qed

lemma handleCallTool_answers:
  assumes "get_prop request (asc ''params'') = Inr p"
    and "get_prop (or_else p (JObj [])) (asc ''name'') = Inr name"
    and "js_to_string (num_str e) name = Inr shown"
    and "get_prop request (asc ''id'') = Inr i"
  shows "\<exists>content t'. handleCallTool e request t =
           (Inr \<lparr>jsonrpc = asc ''2.0'', rpc_id = i,
                 result = Some (JObj [(asc ''content'', content)]), error = None\<rparr>, t')"
proof -
  have "truthy (or_else p (JObj []))" by (simp add: or_else_def)
  then obtain a where a: "get_prop (or_else p (JObj [])) (asc ''arguments'') = Inr a"
    using truthy_get_prop by blast
  let ?m = "if name = JStr (asc ''search_papers'') then searchPapersTool e (or_else a (JObj []))
           else if name = JStr (asc ''get_abstract_by_doi'')
             then getAbstractByDoiTool e (or_else a (JObj []))
           else io_bind (io_lift (template (num_str e) [Lit ko_unknown_tool, Sub name])) (\<lambda>s.
                io_return (text_content s))"
  obtain content t' where c:
    "io_catch ?m (\<lambda>error. io_return (text_content (ko_tool_error @ error_message error))) t =
       (Inr content, t')"
    using catch_total [of ?m "\<lambda>error. text_content (ko_tool_error @ error_message error)" t]
    by blast
  have "handleCallTool e request =
      io_bind (io_catch ?m (\<lambda>error. io_return (text_content (ko_tool_error @ error_message error))))
       (\<lambda>content. io_return \<lparr>jsonrpc = asc ''2.0'', rpc_id = i,
                result = Some (JObj [(asc ''content'', content)]), error = None\<rparr>)"
    using assms a by (simp add: handleCallTool_def Let_def)
  with c show ?thesis by (simp add: io_bind_def io_return_def)
qed

lemma line_answered_once:
  assumes "trim line \<noteq> []" and "json_parse e (trim line) = Inr request"
    and "get_prop request (asc ''method'') = Inr meth"
    and "meth \<noteq> JStr (asc ''notifications/initialized'')"
    and "js_to_string (num_str e) meth = Inr shown_method"
    and "get_prop request (asc ''id'') = Inr i"
    and "js_to_string (num_str e) i = Inr shown_id"
    and "meth = JStr (asc ''tools/call'') \<Longrightarrow>
           \<exists>p name shown. get_prop request (asc ''params'') = Inr p \<and>
             get_prop (or_else p (JObj [])) (asc ''name'') = Inr name \<and>
             js_to_string (num_str e) name = Inr shown"
  shows "\<exists>r s'. handle_line e line s = (Completed, s') \<and> stdout s' = stdout s @ [r] \<and>
           rpc_id r = i \<and> (result r = None) \<noteq> (error r = None)"
proof -
  let ?t = "events s"
  have "\<exists>r init t'. dispatch e line (initialized s) ?t = (Inr (Some r, init), t') \<and>
          rpc_id r = i \<and> (result r = None) \<noteq> (error r = None)"
  proof (cases "meth = JStr (asc ''tools/call'')")
    case True
    with assms(8) obtain p name shown where
      "get_prop request (asc ''params'') = Inr p"
      "get_prop (or_else p (JObj [])) (asc ''name'') = Inr name"
      "js_to_string (num_str e) name = Inr shown" by blast
    then obtain content t' where
      "handleCallTool e request ?t =
           (Inr \<lparr>jsonrpc = asc ''2.0'', rpc_id = i,
                 result = Some (JObj [(asc ''content'', content)]), error = None\<rparr>, t')"
      using handleCallTool_answers [OF _ _ _ assms(6)] by blast
    moreover have "dispatch e line (initialized s) =
        io_bind (handleCallTool e request) (\<lambda>response. io_return (Some response, initialized s))"
      using assms(2,3,6,7) True method_names_distinct by (simp add: dispatch_def)
    ultimately show ?thesis by (simp add: io_bind_def io_return_def)
  next
    case False
    have "dispatch e line (initialized s) =
       (if meth = JStr (asc ''initialize'') then
          io_return (Some \<lparr>jsonrpc = asc ''2.0'', rpc_id = i,
            result = Some (JObj
              [(asc ''protocolVersion'', JStr (asc ''2024-11-05'')),
               (asc ''capabilities'', JObj [(asc ''tools'', JObj [])]),
               (asc ''serverInfo'', JObj [(asc ''name'', JStr (asc ''abstract-search'')),
                                         (asc ''version'', JStr (asc ''1.0.0''))])]),
            error = None\<rparr>, True)
        else if meth = JStr (asc ''tools/list'') then
          io_return (Some \<lparr>jsonrpc = asc ''2.0'', rpc_id = i,
                result = Some (JObj [(asc ''tools'', tools)]), error = None\<rparr>, initialized s)
        else
          io_return (Some \<lparr>jsonrpc = asc ''2.0'', rpc_id = i, result = None,
                         error = Some (- 32601, asc ''Method not found: '' @ shown_method)\<rparr>,
                     initialized s))"
      using assms(2-7) False
      by (simp add: dispatch_def handleInitialize_def handleListTools_def)
    then show ?thesis by (auto simp: io_return_def)
  qed
  then obtain r init t' where
    "dispatch e line (initialized s) ?t = (Inr (Some r, init), t')"
    "rpc_id r = i" "(result r = None) \<noteq> (error r = None)" by blast
  with assms(1) show ?thesis by (simp add: handle_line_def)
qed

lemma crossref_returns:
  assumes "js_to_string (num_str e) doi = Inr shown"
  shows "\<exists>a t1. getAbstractFromCrossref e doi t = (Inr a, t1)"
proof (cases "\<not> truthy doi \<or> doi = JStr (asc ''N/A'')")
  case True
  then show ?thesis by (simp add: getAbstractFromCrossref_def io_return_def)
next
  case False
  have u: "template (num_str e) [Lit crossref_url, Lit (asc ''/''), Sub doi] =
             Inr (crossref_url @ asc ''/'' @ shown)"
    using assms by simp
  show ?thesis
    unfolding getAbstractFromCrossref_def using False u by (simp add: catch_total)
qed

lemma pubmed_returns:
  assumes "js_to_string (num_str e) doi = Inr shown"
  shows "\<exists>b t2. getAbstractFromPubMed e doi t = (Inr b, t2)"
proof (cases "\<not> truthy doi \<or> doi = JStr (asc ''N/A'')")
  case True
  then show ?thesis by (simp add: getAbstractFromPubMed_def io_return_def)
next
  case False
  have u: "template (num_str e) [Sub doi, Lit (asc ''[doi]'')] = Inr (shown @ asc ''[doi]'')"
    using assms by simp
  show ?thesis
    unfolding getAbstractFromPubMed_def using False u by (simp add: catch_total)
qed

lemma getBestAbstract_returns:
  assumes "js_to_string (num_str e) doi = Inr shown"
  shows "\<exists>r t'. getBestAbstract e doi t = (Inr r, t')"
proof -
  obtain a t1 where a: "getAbstractFromCrossref e doi t = (Inr a, t1)"
    using crossref_returns [OF assms] by blast
  obtain b t2 where b: "getAbstractFromPubMed e doi (t1 @ [Sleep 300]) = (Inr b, t2)"
    using pubmed_returns [OF assms] by blast
  have "query_sources [getAbstractFromCrossref e, getAbstractFromPubMed e] doi [] t =
          (Inr ((if success a then [a] else []) @ (if success b then [b] else [])),
           t2 @ [Sleep 300])"
    using query_both [of "getAbstractFromCrossref e" doi t a t1 "getAbstractFromPubMed e" b t2]
      a b by simp
  then show ?thesis
    by (simp add: getBestAbstract_def io_bind_def io_return_def split: list.splits)
qed

lemma dispatch_failure_writes_nothing:
  assumes "trim line \<noteq> []" and "dispatch e line (initialized s) (events s) = (Inl err, t)"
  shows "handle_line e line s =
           (Rejected (ReferenceError (asc ''request is not defined'')), s\<lparr>events := t\<rparr>)"
  using assms by (simp add: handle_line_def catch_block_def request_in_catch_def)

lemma null_request_rejects:
  assumes "trim line \<noteq> []" and "json_parse e (trim line) = Inr JNull"
  shows "handle_line e line s =
           (Rejected (ReferenceError (asc ''request is not defined'')), s)"
proof -
  have "dispatch e line (initialized s) =
          io_lift (Inl (TypeError (asc ''Cannot read properties of null (reading '' @ [0x27] @
             asc ''method'' @ [0x27] @ asc '')'')))"
    using assms(2) by (simp add: dispatch_def)
  then have "dispatch e line (initialized s) (events s) =
          (Inl (TypeError (asc ''Cannot read properties of null (reading '' @ [0x27] @
             asc ''method'' @ [0x27] @ asc '')'')), events s)"
    by (simp add: io_lift_def)
  from dispatch_failure_writes_nothing [OF assms(1) this] show ?thesis by simp
qed

lemmas line_defs = notification_line_def odd_call_line_def odd_call_def demo_parse_def
  offline_env_def trim_def asc_def is_ws_def

lemma online_crossref:
  "getAbstractFromCrossref online_env (JStr (asc ''10.1/x'')) t =
     (Inr crossref_answer, t @ [HttpGet crossref_get])"
  by (simp add: getAbstractFromCrossref_def online_env_def online_net_def axios_get_def
      io_bind_def io_catch_def io_lift_def io_return_def crossref_answer_def crossref_get_def
      crossref_url_def pubmed_url_def cleanAbstract_def match_tag_def
      or_else_def index_of_def digits.simps upt_rec asc_def trim_def is_ws_def)

lemma online_pubmed:
  "getAbstractFromPubMed online_env (JStr (asc ''10.1/x'')) t =
     (Inr pubmed_answer, t @ [HttpGet esearch_get, HttpGet efetch_get])"
  by (simp add: getAbstractFromPubMed_def pubmed_lookup_def pubmed_record_def and_prop_def
      js_gt0_def online_env_def online_net_def axios_get_def
      io_bind_def io_catch_def io_lift_def io_return_def pubmed_answer_def esearch_get_def
      efetch_get_def crossref_url_def pubmed_url_def cleanAbstract_def match_tag_def
      or_else_def index_of_def digits.simps upt_rec asc_def trim_def is_ws_def)

lemma offline_crossref:
  "getAbstractFromCrossref offline_env (JStr (asc ''10.1/x'')) t =
     (Inr (no_abstract (asc ''crossref'')), t @ [HttpGet crossref_get])"
  by (simp add: getAbstractFromCrossref_def offline_env_def axios_get_def
      io_bind_def io_catch_def io_lift_def io_return_def crossref_get_def asc_def)

lemma offline_pubmed:
  "getAbstractFromPubMed offline_env (JStr (asc ''10.1/x'')) t =
     (Inr (no_abstract (asc ''pubmed'')), t @ [HttpGet esearch_get])"
  by (simp add: getAbstractFromPubMed_def offline_env_def axios_get_def
      io_bind_def io_catch_def io_lift_def io_return_def esearch_get_def asc_def)

section \<open>Properties\<close>

text \<open>
  C1, as the code has it. A non-blank line that \<open>JSON.parse\<close> rejects writes no
  line at all: the \<open>catch\<close> block builds the error response with code -32603 from
  the identifier \<open>request\<close>, which is not in scope there, so it raises a
  ReferenceError before anything is written, and the promise of the handler is
  rejected. The claim asks for exactly one error line and a session that goes on.
\<close>

theorem unparsable_line_rejects:
  assumes "trim line \<noteq> []" and "json_parse e (trim line) = Inl err"
  shows "handle_line e line s = (Rejected (ReferenceError (asc ''request is not defined'')), s)"
proof -
  have "dispatch e line (initialized s) = io_lift (Inl err)"
    using assms by (simp add: dispatch_def)
  then show ?thesis
    using assms by (simp add: handle_line_def io_lift_def catch_block_def request_in_catch_def)
qed

theorem unparsable_line_rejects_witness:
  "trim (asc ''{'') \<noteq> [] \<and>
   json_parse offline_env (trim (asc ''{'')) = Inl (SyntaxError (asc ''Unexpected end of JSON input'')) \<and>
   handle_line offline_env (asc ''{'') start =
     (Rejected (ReferenceError (asc ''request is not defined'')), start)"
proof -
  have 1: "trim (asc ''{'') \<noteq> []" by (simp add: line_defs)
  have 2: "json_parse offline_env (trim (asc ''{'')) =
             Inl (SyntaxError (asc ''Unexpected end of JSON input''))"
    by (simp add: line_defs)
  from unparsable_line_rejects [OF 1 2] 1 2 show ?thesis by blast
qed

text \<open>
  C2, as the code has it. A \<open>tools/call\<close> request whose tool name has no string
  form (an object with an own property \<open>toString\<close>) gets no response: the log line
  of \<open>handleCallTool\<close> stands before its \<open>try\<close> and raises, and the \<open>catch\<close>
  block of the line handler fails as for C1. The claim asks for exactly one response
  with the id of the request; \<open>line_answered_once\<close> above shows it for the requests
  whose method, id and tool name have a string form.
\<close>

theorem unprintable_tool_name_rejects:
  assumes "trim line \<noteq> []" and "json_parse e (trim line) = Inr request"
    and "get_prop request (asc ''method'') = Inr (JStr (asc ''tools/call''))"
    and "get_prop request (asc ''id'') = Inr i" and "js_to_string (num_str e) i = Inr shown_id"
    and "get_prop request (asc ''params'') = Inr p"
    and "get_prop (or_else p (JObj [])) (asc ''name'') = Inr name"
    and "js_to_string (num_str e) name = Inl err"
  shows "handle_line e line s =
           (Rejected (ReferenceError (asc ''request is not defined'')), s)"
proof -
  have "truthy (or_else p (JObj []))" by (simp add: or_else_def)
  then obtain a where a: "get_prop (or_else p (JObj [])) (asc ''arguments'') = Inr a"
    using truthy_get_prop by blast
  have "handleCallTool e request = io_lift (Inl err)"
    using assms(6,7,8) a by (simp add: handleCallTool_def Let_def)
  then have "dispatch e line (initialized s) = io_lift (Inl err)"
    using assms(2-5) method_names_distinct by (simp add: dispatch_def)
  then show ?thesis
    using assms(1) by (simp add: handle_line_def io_lift_def catch_block_def request_in_catch_def)
qed

theorem unprintable_tool_name_rejects_witness:
  "json_parse offline_env (trim odd_call_line) = Inr odd_call \<and>
   handle_line offline_env odd_call_line start =
     (Rejected (ReferenceError (asc ''request is not defined'')), start)"
proof -
  have 1: "trim odd_call_line \<noteq> []" by (simp add: line_defs)
  have 2: "json_parse offline_env (trim odd_call_line) = Inr odd_call" by (simp add: line_defs)
  have 3: "get_prop odd_call (asc ''method'') = Inr (JStr (asc ''tools/call''))"
    by (simp add: odd_call_def asc_def)
  have 4: "get_prop odd_call (asc ''id'') = Inr (JNum 1)" by (simp add: odd_call_def asc_def)
  have 5: "js_to_string (num_str offline_env) (JNum 1) = Inr (num_str offline_env 1)" by simp
  have 6: "get_prop odd_call (asc ''params'') =
             Inr (JObj [(asc ''name'', JObj [(asc ''toString'', JNum 0)])])"
    by (simp add: odd_call_def asc_def)
  have 7: "get_prop (or_else (JObj [(asc ''name'', JObj [(asc ''toString'', JNum 0)])]) (JObj []))
             (asc ''name'') = Inr (JObj [(asc ''toString'', JNum 0)])"
    by (simp add: or_else_def)
  have 8: "js_to_string (num_str offline_env) (JObj [(asc ''toString'', JNum 0)]) =
             Inl (TypeError (asc ''Cannot convert object to primitive value''))"
    by simp
  from unprintable_tool_name_rejects [OF 1 2 3 4 5 6 7 8] 2 show ?thesis by blast
qed

text \<open>
  C3. When the adapter of Provider A (crossref) returns a success for the identifier,
  and the adapter of Provider B (pubmed), called after the pause, returns a success
  too, the selector returns the result of Provider A, whose quality score 9 is not
  beaten by the 8 of Provider B. The selector is a function of the identifier and of
  what the providers answer.
\<close>

theorem getBestAbstract_prefers_crossref:
  assumes "getAbstractFromCrossref e doi t = (Inr a, t1)" and "success a"
    and "getAbstractFromPubMed e doi (t1 @ [Sleep 300]) = (Inr b, t2)" and "success b"
  shows "getBestAbstract e doi t = (Inr a, t2 @ [Sleep 300]) \<and>
         source a = asc ''crossref'' \<and> quality_score a = Some 9 \<and> quality_score b = Some 8"
proof -
  have a: "source a = asc ''crossref''" "quality_score a = Some 9"
    using crossref_success [OF assms(1,2)] by simp_all
  have b: "quality_score b = Some 8"
    using pubmed_success [OF assms(3,4)] by simp
  have "query_sources [getAbstractFromCrossref e, getAbstractFromPubMed e] doi [] t =
          (Inr [a, b], t2 @ [Sleep 300])"
    using query_both [of "getAbstractFromCrossref e" doi t a t1 "getAbstractFromPubMed e" b t2]
      assms by simp
  then have "getBestAbstract e doi t = (Inr (better a b), t2 @ [Sleep 300])"
    by (simp add: getBestAbstract_def io_bind_def io_return_def)
  moreover have "better a b = a" using a b by (simp add: better_def score_def)
  ultimately show ?thesis using a b by simp
qed

theorem getBestAbstract_prefers_crossref_witness:
  "success crossref_answer \<and> success pubmed_answer \<and>
   getBestAbstract online_env (JStr (asc ''10.1/x'')) [] =
     (Inr crossref_answer,
      [HttpGet crossref_get, Sleep 300, HttpGet esearch_get, HttpGet efetch_get, Sleep 300])"
proof -
  have 1: "success crossref_answer" by (simp add: crossref_answer_def)
  have 2: "success pubmed_answer" by (simp add: pubmed_answer_def)
  from getBestAbstract_prefers_crossref [OF online_crossref 1 online_pubmed 2, of "[]"] 1 2
  show ?thesis by simp
qed

text \<open>
  C4. When the adapters of both providers return a result that is not a success, the
  selector returns the failure marker: source \<open>none\<close>, success false. For an
  identifier with a string form both adapters always return (\<open>crossref_returns\<close>,
  \<open>pubmed_returns\<close>).
\<close>

theorem getBestAbstract_none:
  assumes "getAbstractFromCrossref e doi t = (Inr a, t1)" and "\<not> success a"
    and "getAbstractFromPubMed e doi (t1 @ [Sleep 300]) = (Inr b, t2)" and "\<not> success b"
  shows "getBestAbstract e doi t =
           (Inr \<lparr>source = asc ''none'', abstract = asc ''N/A'', success = False,
                 title = JUndefined, quality_score = None\<rparr>, t2 @ [Sleep 300])"
proof -
  have "query_sources [getAbstractFromCrossref e, getAbstractFromPubMed e] doi [] t =
          (Inr [], t2 @ [Sleep 300])"
    using query_both [of "getAbstractFromCrossref e" doi t a t1 "getAbstractFromPubMed e" b t2]
      assms by simp
  then show ?thesis
    by (simp add: getBestAbstract_def io_bind_def io_return_def no_abstract_def)
qed

theorem getBestAbstract_none_witness:
  "getBestAbstract offline_env (JStr (asc ''10.1/x'')) [] =
     (Inr \<lparr>source = asc ''none'', abstract = asc ''N/A'', success = False,
           title = JUndefined, quality_score = None\<rparr>,
      [HttpGet crossref_get, Sleep 300, HttpGet esearch_get, Sleep 300])"
proof -
  have 1: "\<not> success (no_abstract (asc ''crossref''))" by simp
  have 2: "\<not> success (no_abstract (asc ''pubmed''))" by simp
  from getBestAbstract_none [OF offline_crossref 1 offline_pubmed 2, of "[]"]
  show ?thesis by simp
qed

text \<open>
  C5, as the code has it. Normalizing an output of the Text Normalizer returns it
  unchanged, except for the empty output: \<open>cleanAbstract\<close> returns the empty
  string for a text that is markup or white space only, and its first guard maps the
  empty string to the sentinel \<open>N/A\<close>.
\<close>

theorem cleanAbstract_idempotent_nonempty:
  assumes "cleanAbstract v = Inr s"
  shows "cleanAbstract (JStr s) = (if s = [] then Inr (asc ''N/A'') else Inr s)"
proof (cases "s = []")
  case True
  then show ?thesis by (simp add: cleanAbstract_def)
next
  case ne: False
  show ?thesis
  proof (cases "s = asc ''N/A''")
    case True
    with ne show ?thesis by (simp add: cleanAbstract_NA)
  next
    case nna: False
    with assms obtain x where
      s: "s = (if 500 < length (pipeline x) then take 500 (pipeline x) @ asc ''...'' else pipeline x)"
      using cleanAbstract_cases by blast
    let ?t = "pipeline x"
    have nt: "normal ?t" by (rule normal_pipeline)
    have ns: "normal s" using s nt normal_truncated by auto
    have ls: "500 < length s \<Longrightarrow> take 500 s @ asc ''...'' = s"
      using s by (auto simp: dots_facts split: if_splits)
    show ?thesis
      using ne nna cleanAbstract_str [of s] pipeline_normal [OF ns] ls by auto
  qed
qed

theorem cleanAbstract_idempotent_nonempty_witness:
  "cleanAbstract (JStr (asc ''<b>A  b</b>'')) = Inr (asc ''A b'') \<and>
   cleanAbstract (JStr (asc ''A b'')) = Inr (asc ''A b'')"
proof -
  have h: "cleanAbstract (JStr (asc ''<b>A  b</b>'')) = Inr (asc ''A b'')"
    by (simp add: cleanAbstract_def asc_def match_tag_def trim_def is_ws_def)
  from cleanAbstract_idempotent_nonempty [OF h] h show ?thesis by (simp add: asc_def)
qed

text \<open>
  C5 as stated fails: the output for the input \<open><p></p>\<close> is the empty string, and
  normalizing the empty string gives \<open>N/A\<close>.
\<close>

theorem cleanAbstract_not_idempotent_on_empty:
  "cleanAbstract (JStr (asc ''<p></p>'')) = Inr [] \<and> cleanAbstract (JStr []) \<noteq> Inr []"
  by (simp add: cleanAbstract_def asc_def match_tag_def trim_def)

text \<open>
  C6. An input of 10,000 code units in which the tag expression matches nowhere and
  which the white space replacement leaves unchanged is cut to 503 code units: the
  first 500 of the normalized (trimmed) text, then the three dots. They are the first
  500 code units of the input itself unless the input begins with a white space unit,
  which \<open>trim\<close> removes first.
\<close>

theorem cleanAbstract_truncates_long_input:
  assumes len: "length x = 10000" and tags: "\<not> contains_tag x" and ws: "collapse_ws x = x"
  shows "cleanAbstract (JStr x) = Inr (take 500 (trim x) @ asc ''...'') \<and>
         length (take 500 (trim x) @ asc ''...'') = 503 \<and>
         (\<not> is_ws (hd x) \<longrightarrow> take 500 (trim x) = take 500 x)"
proof -
  have c: "collapsed x" using collapsed_collapse_ws [of x] ws by simp
  then have l: "9998 \<le> length (trim x)" using length_trim_collapsed [of x] len by simp
  have p: "pipeline x = trim x" using pipeline_no_tag [OF tags] ws by simp
  from len have "x \<noteq> []" "x \<noteq> asc ''N/A''" by (auto simp: asc_def)
  then have 1: "cleanAbstract (JStr x) = Inr (take 500 (trim x) @ asc ''...'')"
    using cleanAbstract_str [of x] p l by simp
  have 2: "length (take 500 (trim x) @ asc ''...'') = 503" using l by (simp add: asc_def)
  have 3: "take 500 (trim x) = take 500 x" if "\<not> is_ws (hd x)"
  proof -
    from that obtain b where "x = trim x @ b" using trim_prefix by blast
    then have "take 500 x = take 500 (trim x @ b)" by simp
    also have "\<dots> = take 500 (trim x)" using l by simp
    finally show ?thesis by simp
  qed
  from 1 2 3 show ?thesis by blast
qed

theorem cleanAbstract_truncates_long_input_witness:
  "cleanAbstract (JStr (replicate 10000 0x61)) = Inr (replicate 500 0x61 @ asc ''...'')"
proof -
  let ?x = "replicate 10000 (0x61 :: 16 word)"
  have 1: "length ?x = 10000" by simp
  have 2: "\<not> contains_tag ?x" by (rule no_lt_no_tag) simp
  have 3: "collapse_ws ?x = ?x" by (rule collapse_ws_replicate) (rule a_not_ws)
  have 4: "\<not> is_ws (hd ?x)" by (simp add: hd_replicate a_not_ws)
  from cleanAbstract_truncates_long_input [OF 1 2 3] 4 show ?thesis by (simp add: take_replicate)
qed

text \<open>
  C7. A line whose parsed value has the method \<open>notifications/initialized\<close> leaves
  the protocol stream as it was: no line is written, whatever else the request holds.
\<close>

theorem notification_writes_nothing:
  assumes "json_parse e (trim line) = Inr request"
    and "get_prop request (asc ''method'') = Inr (JStr (asc ''notifications/initialized''))"
  shows "stdout (snd (handle_line e line s)) = stdout s"
proof (cases "trim line = []")
  case True
  then show ?thesis by (simp add: handle_line_def)
next
  case False
  obtain i where i: "get_prop request (asc ''id'') = Inr i"
    using get_prop_total [OF assms(2)] by blast
  have m: "js_to_string (num_str e) (JStr (asc ''notifications/initialized'')) = Inr (asc ''notifications/initialized'')"
    by simp
  show ?thesis
  proof (cases "js_to_string (num_str e) i")
    case (Inl err)
    then have "dispatch e line (initialized s) = io_lift (Inl err)"
      using assms i by (simp add: dispatch_def)
    then show ?thesis
      using False by (simp add: handle_line_def io_lift_def catch_block_def request_in_catch_def)
  next
    case (Inr str)
    then have "dispatch e line (initialized s) = io_return (None, initialized s)"
      using assms i by (simp add: dispatch_def asc_def)
    then show ?thesis
      using False by (simp add: handle_line_def io_return_def)
  qed
qed

theorem notification_writes_nothing_witness:
  "stdout (snd (handle_line offline_env notification_line start)) = []"
proof -
  let ?request = "JObj [(asc ''jsonrpc'', JStr (asc ''2.0'')),
                        (asc ''method'', JStr (asc ''notifications/initialized''))]"
  have 1: "json_parse offline_env (trim notification_line) = Inr ?request"
    by (simp add: line_defs)
  have 2: "get_prop ?request (asc ''method'') = Inr (JStr (asc ''notifications/initialized''))"
    by (simp add: asc_def)
  from notification_writes_nothing [OF 1 2, of start] show ?thesis by (simp add: start_def)
qed

text \<open>
  A \<open>tools/call\<close> request whose tool name is neither \<open>search_papers\<close> nor
  \<open>get_abstract_by_doi\<close> and has a string form (every string; also a number,
  \<open>null\<close> or a missing name) is answered with a result and no error; the content is
  one text block, the "unknown tool" literal followed by the name as the engine prints
  it. No request is sent and no pause is made.
\<close>

lemma unknown_tool_is_content:
  assumes "get_prop request (asc ''params'') = Inr p"
    and "get_prop (or_else p (JObj [])) (asc ''name'') = Inr name"
    and "name \<noteq> JStr (asc ''search_papers'')"
    and "name \<noteq> JStr (asc ''get_abstract_by_doi'')"
    and "js_to_string (num_str e) name = Inr shown"
    and "get_prop request (asc ''id'') = Inr i"
  shows "handleCallTool e request t =
           (Inr \<lparr>jsonrpc = asc ''2.0'', rpc_id = i,
                 result = Some (JObj [(asc ''content'',
                   JArr [JObj [(asc ''type'', JStr (asc ''text'')),
                               (asc ''text'', JStr (ko_unknown_tool @ shown))]])]),
                 error = None\<rparr>, t)"
proof -
  have "truthy (or_else p (JObj []))" by (simp add: or_else_def)
  then obtain a where a: "get_prop (or_else p (JObj [])) (asc ''arguments'') = Inr a"
    using truthy_get_prop by blast
  have "handleCallTool e request =
          io_return \<lparr>jsonrpc = asc ''2.0'', rpc_id = i,
                 result = Some (JObj [(asc ''content'', text_content (ko_unknown_tool @ shown))]),
                 error = None\<rparr>"
    using assms a by (simp add: handleCallTool_def Let_def)
  then show ?thesis by (simp add: io_return_def text_content_def)
qed

lemma unknown_tool_is_content_example:
  "handleCallTool offline_env unknown_call [] =
     (Inr \<lparr>jsonrpc = asc ''2.0'', rpc_id = JNum 7,
           result = Some (JObj [(asc ''content'',
             JArr [JObj [(asc ''type'', JStr (asc ''text'')),
                         (asc ''text'', JStr (ko_unknown_tool @ asc ''delete_paper''))]])]),
           error = None\<rparr>, [])"
proof -
  let ?p = "JObj [(asc ''name'', JStr (asc ''delete_paper'')), (asc ''arguments'', JObj [])]"
  have 1: "get_prop unknown_call (asc ''params'') = Inr ?p"
    by (simp add: unknown_call_def asc_def)
  have 2: "get_prop (or_else ?p (JObj [])) (asc ''name'') = Inr (JStr (asc ''delete_paper''))"
    by (simp add: or_else_def)
  have 3: "JStr (asc ''delete_paper'') \<noteq> JStr (asc ''search_papers'')" by (simp add: asc_def)
  have 4: "JStr (asc ''delete_paper'') \<noteq> JStr (asc ''get_abstract_by_doi'')"
    by (simp add: asc_def)
  have 5: "js_to_string (num_str offline_env) (JStr (asc ''delete_paper'')) = Inr (asc ''delete_paper'')" by simp
  have 6: "get_prop unknown_call (asc ''id'') = Inr (JNum 7)"
    by (simp add: unknown_call_def asc_def)
  from unknown_tool_is_content [OF 1 2 3 4 5 6] show ?thesis .
qed

text \<open>
  C8, as the code has it. For a tool name without a string form (an object with an own
  property \<open>toString\<close>, which is none of the two registered names) \<open>handleCallTool\<close>
  returns no response at all: the template literal of its log line, which stands
  before the \<open>try\<close> that turns the failures of a tool into content, raises a
  TypeError that leaves the function; nothing is sent and no pause is made. The claim
  asks for a successful response whose text names the unknown tool, which is what
  every name with a string form gets (\<open>unknown_tool_is_content\<close>).
\<close>

theorem unknown_tool_without_string_form_raises:
  assumes "get_prop request (asc ''params'') = Inr p"
    and "get_prop (or_else p (JObj [])) (asc ''name'') = Inr name"
    and "js_to_string (num_str e) name = Inl err"
  shows "name \<noteq> JStr (asc ''search_papers'') \<and> name \<noteq> JStr (asc ''get_abstract_by_doi'') \<and>
         handleCallTool e request t = (Inl err, t)"
proof -
  have "truthy (or_else p (JObj []))" by (simp add: or_else_def)
  then obtain a where a: "get_prop (or_else p (JObj [])) (asc ''arguments'') = Inr a"
    using truthy_get_prop by blast
  have "handleCallTool e request = io_lift (Inl err)"
    using assms a by (simp add: handleCallTool_def Let_def)
  then have "handleCallTool e request t = (Inl err, t)" by (simp add: io_lift_def)
  moreover have "name \<noteq> JStr (asc ''search_papers'')" "name \<noteq> JStr (asc ''get_abstract_by_doi'')"
    using assms(3) by auto
  ultimately show ?thesis by simp
qed

theorem unknown_tool_without_string_form_raises_witness:
  "get_prop odd_call (asc ''params'') =
     Inr (JObj [(asc ''name'', JObj [(asc ''toString'', JNum 0)])]) \<and>
   handleCallTool offline_env odd_call [] =
     (Inl (TypeError (asc ''Cannot convert object to primitive value'')), [])"
proof -
  let ?p = "JObj [(asc ''name'', JObj [(asc ''toString'', JNum 0)])]"
  have 1: "get_prop odd_call (asc ''params'') = Inr ?p"
    by (simp add: odd_call_def asc_def)
  have 2: "get_prop (or_else ?p (JObj [])) (asc ''name'') = Inr (JObj [(asc ''toString'', JNum 0)])"
    by (simp add: or_else_def)
  have 3: "js_to_string (num_str offline_env) (JObj [(asc ''toString'', JNum 0)]) =
             Inl (TypeError (asc ''Cannot convert object to primitive value''))"
    by simp
  from unknown_tool_without_string_form_raises [OF 1 2 3, of "[]"] 1 show ?thesis by blast
qed

text \<open>
  C9. When the \<open>count\<close> argument of \<open>search_papers\<close> is falsy (0, \<open>null\<close>, the
  empty string, \<open>false\<close>, or absent) and the query is a truthy value with a string
  form, so that the search is made, the first thing the tool does to the outside is the
  request of the Primary Search Adapter with \<open>count\<close> 10; and the call behaves
  exactly as a call with the same query and no \<open>count\<close>.
\<close>

theorem falsy_count_forwards_default:
  assumes "get_prop arguments (asc ''query'') = Inr q" and "truthy q"
    and "js_to_string (num_str e) q = Inr shown"
    and "get_prop arguments (asc ''count'') = Inr c" and "\<not> truthy c"
  shows "(\<exists>r rest. searchPapersTool e arguments t =
            (r, t @ HttpGet (scopus_request e q (JNum 10)) # rest)) \<and>
         map_of (params (scopus_request e q (JNum 10))) (asc ''count'') = Some (JNum 10) \<and>
         (\<forall>other. get_prop other (asc ''query'') = Inr q \<and>
                  get_prop other (asc ''count'') = Inr JUndefined \<longrightarrow>
                  searchPapersTool e other = searchPapersTool e arguments)"
proof -
  let ?k = "\<lambda>papers.
       if length papers = 0 then
         io_bind (io_lift (template (num_str e) [Lit [0x27], Sub q, Lit ko_no_papers])) (\<lambda>s.
         io_return (text_content s))
       else
         io_bind (io_lift (template (num_str e) [Lit [0x27], Sub q, Lit ko_found_for,
                                     Sub (JNum (of_nat (length papers))), Lit ko_found_papers]))
           (\<lambda>header.
         io_bind (io_lift (format_papers (num_str e) 0 papers header)) (\<lambda>resultText.
         io_return (text_content resultText)))"
  have ten: "js_to_string (num_str e) (JNum 10) = Inr (num_str e 10)" by simp
  have tool: "searchPapersTool e a = io_bind (searchPapersWithAbstracts e q (JNum 10)) ?k"
    if "get_prop a (asc ''query'') = Inr q" and "get_prop a (asc ''count'') = Inr c'"
      and "\<not> truthy c'" for a c'
    using that assms(2,3) ten by (simp add: searchPapersTool_def Let_def or_else_def)
  obtain r rest where f: "searchPapersWithAbstracts e q (JNum 10) t =
      (r, t @ HttpGet (scopus_request e q (JNum 10)) # rest)"
    using searchPapersWithAbstracts_first [of e q "JNum 10" t] by auto
  have "\<And>papers. grows (?k papers)" by (intro grows_intros)
  then have k: "\<And>papers t'. \<exists>r' ext. ?k papers t' = (r', t' @ ext)"
    using growsD by blast
  have 1: "\<exists>r rest. searchPapersTool e arguments t =
            (r, t @ HttpGet (scopus_request e q (JNum 10)) # rest)"
  proof (cases r)
    case (Inl err)
    with f show ?thesis
      unfolding tool [OF assms(1,4,5)] by (simp add: io_bind_def)
  next
    case (Inr papers)
    obtain r' ext where "?k papers (t @ HttpGet (scopus_request e q (JNum 10)) # rest) =
        (r', (t @ HttpGet (scopus_request e q (JNum 10)) # rest) @ ext)"
      using k by blast
    with f Inr show ?thesis
      unfolding tool [OF assms(1,4,5)] by (simp add: io_bind_def)
  qed
  have 2: "map_of (params (scopus_request e q (JNum 10))) (asc ''count'') = Some (JNum 10)"
    by (simp add: scopus_request_def asc_def)
  have 3: "searchPapersTool e other = searchPapersTool e arguments"
    if "get_prop other (asc ''query'') = Inr q \<and> get_prop other (asc ''count'') = Inr JUndefined"
    for other
    using tool [of other JUndefined] tool [OF assms(1,4,5)] that by simp
  from 1 2 3 show ?thesis by blast
qed

theorem falsy_count_forwards_default_witness:
  "\<exists>r rest.
     searchPapersTool offline_env
       (JObj [(asc ''query'', JStr (asc ''graphene'')), (asc ''count'', JNum 0)]) [] =
     (r, [] @ HttpGet (scopus_request offline_env (JStr (asc ''graphene'')) (JNum 10)) # rest)"
proof -
  let ?a = "JObj [(asc ''query'', JStr (asc ''graphene'')), (asc ''count'', JNum 0)]"
  have 1: "get_prop ?a (asc ''query'') = Inr (JStr (asc ''graphene''))" by simp
  have 2: "truthy (JStr (asc ''graphene''))" by (simp add: asc_def)
  have 3: "js_to_string (num_str offline_env) (JStr (asc ''graphene'')) = Inr (asc ''graphene'')" by simp
  have 4: "get_prop ?a (asc ''count'') = Inr (JNum 0)" by (simp add: asc_def)
  have 5: "\<not> truthy (JNum 0)" by simp
  from falsy_count_forwards_default [where e = offline_env and t = "[]", OF 1 2 3 4 5]
  show ?thesis
    by blast
qed



end
